theory Spec2Isabelle
  imports Main "HOL-Library.Sublist" "HOL-Library.Multiset"
    "HOL-Library.Option_ord" "HOL-Library.Product_Lexorder"
begin

section \<open>The legendas.tv subtitle provider\<close>

text \<open>
  A shallow embedding of \<^verbatim>\<open>lib/subliminal/providers/legendastv.py\<close>: the metadata
  predicate \<^verbatim>\<open>matches\<close>, the normalisation loop of \<^verbatim>\<open>search_candidates\<close>, the final
  ordering of \<^verbatim>\<open>query\<close> and the archive helpers \<^verbatim>\<open>_uncompress\<close>,
  \<^verbatim>\<open>get_subtitle_names\<close> and \<^verbatim>\<open>extract_subtitle\<close>.

  The module is Python 2. Its dictionaries hold dynamically typed values, so the values
  that can reach the code are a datatype; a character is a code point below 256.
\<close>

subsection \<open>Python values, dictionaries and exceptions\<close>

datatype pyval = PNone | PStr string | PInt int | PDict "(string \<times> pyval) list"

type_synonym pydict = "(string \<times> pyval) list"

datatype error = KeyError | TypeError | AttributeError | ValueError | ArchiveError

text \<open>The truth value Python gives an object in \<^verbatim>\<open>if x\<close>, \<^verbatim>\<open>x and y\<close>, \<^verbatim>\<open>not x\<close>.\<close>

fun truthy :: "pyval \<Rightarrow> bool" where
  "truthy PNone = False"
| "truthy (PStr s) = (s \<noteq> [])"
| "truthy (PInt n) = (n \<noteq> 0)"
| "truthy (PDict d) = (d \<noteq> [])"

text \<open>\<^verbatim>\<open>d.get(k)\<close>: the value stored under \<open>k\<close>, \<^verbatim>\<open>None\<close> when the key is absent.\<close>

definition dict_get :: "pydict \<Rightarrow> string \<Rightarrow> pyval" where
  "dict_get d k = (case map_of d k of None \<Rightarrow> PNone | Some v \<Rightarrow> v)"

text \<open>An optional integer argument (\<^verbatim>\<open>None\<close> or an \<^verbatim>\<open>int\<close>) as a Python value.\<close>

fun of_opt :: "int option \<Rightarrow> pyval" where
  "of_opt None = PNone"
| "of_opt (Some n) = PInt n"

subsection \<open>Characters and strings\<close>

definition is_digit :: "char \<Rightarrow> bool" where
  "is_digit c = (48 \<le> (of_char c :: nat) \<and> (of_char c :: nat) \<le> 57)"

definition is_upper :: "char \<Rightarrow> bool" where
  "is_upper c = (65 \<le> (of_char c :: nat) \<and> (of_char c :: nat) \<le> 90)"

definition is_lower :: "char \<Rightarrow> bool" where
  "is_lower c = (97 \<le> (of_char c :: nat) \<and> (of_char c :: nat) \<le> 122)"

text \<open>\<^verbatim>\<open>s.lower()\<close> on the ASCII letters; every other character is left as it is.\<close>

definition lower_char :: "char \<Rightarrow> char" where
  "lower_char c = (if is_upper c then char_of ((of_char c :: nat) + 32) else c)"

definition lower :: "string \<Rightarrow> string" where
  "lower s = map lower_char s"

text \<open>\<^verbatim>\<open>s.startswith(p)\<close>, \<^verbatim>\<open>s.endswith(p)\<close> and \<^verbatim>\<open>p in s\<close>, computed.\<close>

fun startswith :: "string \<Rightarrow> string \<Rightarrow> bool" where
  "startswith s [] = True"
| "startswith [] (p # ps) = False"
| "startswith (c # cs) (p # ps) = (c = p \<and> startswith cs ps)"

definition endswith :: "string \<Rightarrow> string \<Rightarrow> bool" where
  "endswith s p = startswith (rev s) (rev p)"

fun contains :: "string \<Rightarrow> string \<Rightarrow> bool" where
  "contains [] p = (p = [])"
| "contains (c # cs) p = (startswith (c # cs) p \<or> contains cs p)"

subsection \<open>The title comparison of \<^verbatim>\<open>subliminal.subtitle\<close>\<close>

text \<open>
  Modelled from the spec: \<^verbatim>\<open>sanitized_string_equal\<close> is imported from
  \<^verbatim>\<open>..subtitle\<close>, which is not among the sources. Section 4.1 of the specification
  describes it: both strings are normalised by case folding and by stripping punctuation,
  then compared; in partial mode containment of one normalised string in the other counts
  as equal. Here the normal form keeps ASCII letters (lower-cased), digits and spaces.
  A value that is not a string compares unequal.

  \<^verbatim>\<open>matches\<close> itself takes the comparison as an argument, so every general statement
  about it holds for any comparison; this one is used at concrete titles.
\<close>

definition sanitize_string :: "string \<Rightarrow> string" where
  "sanitize_string s =
     lower (filter (\<lambda>c. is_upper c \<or> is_lower c \<or> is_digit c \<or> c = CHR '' '') s)"

definition sanitized_string_equal :: "string \<Rightarrow> pyval \<Rightarrow> bool \<Rightarrow> bool" where
  "sanitized_string_equal string1 v allow_partial =
     (case v of
        PStr string2 \<Rightarrow>
          (let s1 = sanitize_string string1; s2 = sanitize_string string2
           in s1 = s2 \<or> (allow_partial \<and> (contains s2 s1 \<or> contains s1 s2)))
      | _ \<Rightarrow> False)"

subsection \<open>\<^verbatim>\<open>LegendasTvProvider.matches\<close>\<close>

text \<open>
  \<open>eq\<close> stands for \<^verbatim>\<open>sanitized_string_equal\<close>; its third argument is
  \<^verbatim>\<open>allow_partial\<close>, which defaults to false. The expected season, episode and year
  are \<^verbatim>\<open>None\<close> or an integer. The branches are those of the source, in its order.
\<close>

definition matches ::
  "(string \<Rightarrow> pyval \<Rightarrow> bool \<Rightarrow> bool) \<Rightarrow> pydict \<Rightarrow> string \<Rightarrow>
   int option \<Rightarrow> int option \<Rightarrow> int option \<Rightarrow> bool \<Rightarrow> bool" where
  "matches eq actual_properties expected_title expected_season expected_episode
     expected_year ignore_episode =
    (let expected_type = (if truthy (of_opt expected_season) then ''episode'' else ''movie'')
     in
       if PStr expected_type \<noteq> dict_get actual_properties ''type'' then False
       else if expected_type = ''movie'' then
         (if \<not> eq expected_title (dict_get actual_properties ''title'') True then False
          else if of_opt expected_year \<noteq> dict_get actual_properties ''year'' then
            (if truthy (of_opt expected_year) \<and> truthy (dict_get actual_properties ''year'')
             then False
             else if \<not> eq expected_title (dict_get actual_properties ''title'') False
             then False
             else True)
          else True)
       else if expected_type = ''episode'' then
         (if \<not> eq expected_title (dict_get actual_properties ''title'') True then False
          else if of_opt expected_season \<noteq> dict_get actual_properties ''season'' then False
          else if \<not> ignore_episode
                  \<and> of_opt expected_episode \<noteq> dict_get actual_properties ''episode''
          then False
          else True)
       else True)"

subsection \<open>The final ordering of \<^verbatim>\<open>query\<close>\<close>

text \<open>
  The attributes of \<^verbatim>\<open>LegendasTvSubtitle\<close>, \<^verbatim>\<open>s.featured\<close> as \<open>s_featured s\<close>. The download count and the rating are
  \<^verbatim>\<open>None\<close> when the listing text does not carry them; the timestamp is kept as the
  text it was parsed from.
\<close>

record subtitle =
  s_language :: string
  s_page_link :: string
  s_subtitle_id :: "string option"
  s_name :: string
  s_binary_content :: "nat list"
  s_imdb_id :: pyval
  s_type :: pyval
  s_season :: pyval
  s_year :: pyval
  s_no_downloads :: "int option"
  s_rating :: "int option"
  s_featured :: bool
  s_multiple_episodes :: bool
  s_timestamp :: "string option"

text \<open>
  The key of the last statement of \<^verbatim>\<open>query\<close>,
  \<^verbatim>\<open>lambda s: (s.featured, s.no_downloads, s.rating, s.multiple_episodes)\<close>. Python 2
  compares tuples lexicographically, \<^verbatim>\<open>False < True\<close>, and \<^verbatim>\<open>None\<close> is below
  every integer: the lexicographic order on pairs with \<open>None\<close> least in the option type.
\<close>

definition sort_key_of :: "subtitle \<Rightarrow> bool \<times> int option \<times> int option \<times> bool" where
  "sort_key_of s = (s_featured s, s_no_downloads s, s_rating s, s_multiple_episodes s)"

text \<open>
  \<^verbatim>\<open>list.sort(key=k, reverse=True)\<close>: CPython reverses the list, sorts it with its
  stable ascending sort and reverses the result.
\<close>

definition list_sort_reverse :: "('a \<Rightarrow> 'k::linorder) \<Rightarrow> 'a list \<Rightarrow> 'a list" where
  "list_sort_reverse k xs = rev (sort_key k (rev xs))"

definition sort_subtitles :: "subtitle list \<Rightarrow> subtitle list" where
  "sort_subtitles subtitles = list_sort_reverse sort_key_of subtitles"

text \<open>
  The constructor call of the source with its defaults, for records that differ in the
  ranking fields only.
\<close>

definition LegendasTvSubtitle :: "string \<Rightarrow> bool \<Rightarrow> int option \<Rightarrow> int option \<Rightarrow> bool \<Rightarrow> subtitle" where
  "LegendasTvSubtitle n f d r m =
     \<lparr>s_language = ''pt-BR'', s_page_link = [], s_subtitle_id = None, s_name = n,
      s_binary_content = [], s_imdb_id = PNone, s_type = PNone, s_season = PNone,
      s_year = PNone, s_no_downloads = d, s_rating = r, s_featured = f,
      s_multiple_episodes = m, s_timestamp = None\<rparr>"

subsection \<open>Archives: \<^verbatim>\<open>_uncompress\<close>, \<^verbatim>\<open>get_subtitle_names\<close>, \<^verbatim>\<open>extract_subtitle\<close>\<close>

text \<open>
  \<^verbatim>\<open>rarfile\<close> and \<^verbatim>\<open>zipfile\<close> are libraries outside the repository. The code uses
  an opened archive through \<^verbatim>\<open>namelist()\<close> and \<^verbatim>\<open>read(name)\<close> only, and the
  libraries through the two probes and the two constructors; they are parameters of the
  model, functions of the bytes. Opening an archive and reading a member can raise. An
  archive object defines neither \<^verbatim>\<open>__len__\<close> nor \<^verbatim>\<open>__nonzero__\<close>, so \<^verbatim>\<open>if cf\<close> is
  true for every opened archive.
\<close>

type_synonym bytes = "nat list"

record compressed_file =
  namelist :: "string list"
  read :: "string \<Rightarrow> error + bytes"

record archive_lib =
  is_rarfile :: "bytes \<Rightarrow> bool"
  RarFile :: "bytes \<Rightarrow> error + compressed_file"
  is_zipfile :: "bytes \<Rightarrow> bool"
  ZipFile :: "bytes \<Rightarrow> error + compressed_file"

text \<open>
  \<^verbatim>\<open>cf = RarFile(bc) if is_rarfile(bc) else (ZipFile(bc) if is_zipfile(bc) else None)\<close>:
  \<open>Inr None\<close> is Python's \<^verbatim>\<open>None\<close>.
\<close>

definition open_archive :: "archive_lib \<Rightarrow> bytes \<Rightarrow> error + compressed_file option" where
  "open_archive lib content =
     (if is_rarfile lib content then
        (case RarFile lib content of Inl e \<Rightarrow> Inl e | Inr cf \<Rightarrow> Inr (Some cf))
      else if is_zipfile lib content then
        (case ZipFile lib content of Inl e \<Rightarrow> Inl e | Inr cf \<Rightarrow> Inr (Some cf))
      else Inr None)"

text \<open>\<^verbatim>\<open>return function(cf, *args, **kwargs) if cf else None\<close>\<close>

definition uncompress ::
  "archive_lib \<Rightarrow> bytes \<Rightarrow> (compressed_file \<Rightarrow> error + 'a) \<Rightarrow> error + 'a option" where
  "uncompress lib content function =
     (case open_archive lib content of
        Inl e \<Rightarrow> Inl e
      | Inr None \<Rightarrow> Inr None
      | Inr (Some cf) \<Rightarrow>
          (case function cf of Inl e \<Rightarrow> Inl e | Inr r \<Rightarrow> Inr (Some r)))"

text \<open>
  A stand-in for the two libraries at concrete inputs, as a test would use: it takes the
  byte string \<open>zbytes\<close> for a ZIP archive with the given members and recognises
  nothing else; reading a member that is absent raises \<^verbatim>\<open>KeyError\<close>.
\<close>

definition zip_members :: "(string \<times> bytes) list \<Rightarrow> compressed_file" where
  "zip_members members =
     \<lparr>namelist = map fst members,
      read = (\<lambda>n. case map_of members n of None \<Rightarrow> Inl KeyError | Some b \<Rightarrow> Inr b)\<rparr>"

definition single_zip_lib :: "bytes \<Rightarrow> (string \<times> bytes) list \<Rightarrow> archive_lib" where
  "single_zip_lib zbytes members =
     \<lparr>is_rarfile = (\<lambda>b. False),
      RarFile = (\<lambda>b. Inl ArchiveError),
      is_zipfile = (\<lambda>b. b = zbytes),
      ZipFile = (\<lambda>b. if b = zbytes then Inr (zip_members members) else Inl ArchiveError)\<rparr>"

text \<open>
  \<^verbatim>\<open>f.lower().endswith(SUBTITLE_EXTENSIONS)\<close> with a tuple of suffixes. The tuple is a
  constant of \<^verbatim>\<open>..video\<close>, a parameter here.
\<close>

definition endswith_any :: "string \<Rightarrow> string list \<Rightarrow> bool" where
  "endswith_any s ps = list_ex (endswith s) ps"

definition get_subtitle_names ::
  "archive_lib \<Rightarrow> string list \<Rightarrow> bytes \<Rightarrow> error + string list option" where
  "get_subtitle_names lib SUBTITLE_EXTENSIONS content =
     uncompress lib content
       (\<lambda>cf. Inr (filter (\<lambda>f. \<not> contains (lower f) ''legendas.tv''
                               \<and> endswith_any (lower f) SUBTITLE_EXTENSIONS)
                     (namelist cf)))"

text \<open>
  \<^verbatim>\<open>lambda cf, name: fix_line_ending(cf.read(name))\<close>; \<^verbatim>\<open>fix_line_ending\<close> is
  imported from \<^verbatim>\<open>..subtitle\<close>, which is not among the sources, and is the parameter
  \<open>fix\<close>.
\<close>

definition extract_subtitle ::
  "archive_lib \<Rightarrow> (bytes \<Rightarrow> bytes) \<Rightarrow> bytes \<Rightarrow> string \<Rightarrow> error + bytes option" where
  "extract_subtitle lib fix content subtitle_name =
     uncompress lib content
       (\<lambda>cf. case read cf subtitle_name of
                Inl e \<Rightarrow> Inl e
              | Inr b \<Rightarrow> Inr (fix b))"

subsection \<open>The regular expressions of \<^verbatim>\<open>search_candidates\<close>\<close>

text \<open>
  \<^verbatim>\<open>imdb_re = re.compile('t{0,2}(\d+)')\<close>. \<open>imdb_re_match\<close> is the pattern anchored at
  the start of its argument: the greedy \<^verbatim>\<open>t{0,2}\<close> tries two, one and no \<^verbatim>\<open>t\<close>,
  and the greedy \<^verbatim>\<open>\d+\<close> takes the whole run of digits, which is group 1. Without
  the UNICODE flag \<^verbatim>\<open>\d\<close> is \<^verbatim>\<open>[0-9]\<close>. \<open>imdb_re_search\<close> is
  \<^verbatim>\<open>imdb_re.search\<close>: the match at the leftmost position that has one, its group 1.
\<close>

definition starts_digit :: "string \<Rightarrow> bool" where
  "starts_digit s = (case s of [] \<Rightarrow> False | c # _ \<Rightarrow> is_digit c)"

definition imdb_re_match :: "string \<Rightarrow> string option" where
  "imdb_re_match s =
     (if startswith s ''tt'' \<and> starts_digit (drop 2 s) then Some (takeWhile is_digit (drop 2 s))
      else if startswith s ''t'' \<and> starts_digit (drop 1 s) then Some (takeWhile is_digit (drop 1 s))
      else if starts_digit s then Some (takeWhile is_digit s)
      else None)"

fun imdb_re_search :: "string \<Rightarrow> string option" where
  "imdb_re_search [] = None"
| "imdb_re_search (c # cs) =
     (case imdb_re_match (c # cs) of Some g \<Rightarrow> Some g | None \<Rightarrow> imdb_re_search cs)"

text \<open>
  \<^verbatim>\<open>season_re = re.compile('.*? - (\d{1,2}).*?((emporada)|(Season))', re.IGNORECASE)\<close>.
  A dot matches every character but the newline. \<open>keyword_ahead\<close> is the tail
  \<^verbatim>\<open>.*?((emporada)|(Season))\<close> anchored at the start of its argument, \<open>season_digits\<close>
  is \<^verbatim>\<open>(\d{1,2}).*?((emporada)|(Season))\<close> with two digits tried before one, giving
  group 1, \<open>season_re_match\<close> is the whole pattern anchored at the start, where the lazy
  \<^verbatim>\<open>.*?\<close> skips as few characters as possible, and \<open>season_re_search\<close> is
  \<^verbatim>\<open>season_re.search\<close>.
\<close>

definition istartswith :: "string \<Rightarrow> string \<Rightarrow> bool" where
  "istartswith s p = startswith (lower s) (lower p)"

definition newline :: char where
  "newline = CHR 0x0A"

fun keyword_ahead :: "string \<Rightarrow> bool" where
  "keyword_ahead [] = False"
| "keyword_ahead (c # cs) =
     (istartswith (c # cs) ''emporada'' \<or> istartswith (c # cs) ''Season''
      \<or> (c \<noteq> newline \<and> keyword_ahead cs))"

fun season_digits :: "string \<Rightarrow> string option" where
  "season_digits (d1 # d2 # rest) =
     (if is_digit d1 \<and> is_digit d2 \<and> keyword_ahead rest then Some [d1, d2]
      else if is_digit d1 \<and> keyword_ahead (d2 # rest) then Some [d1]
      else None)"
| "season_digits s = None"

fun season_re_match :: "string \<Rightarrow> string option" where
  "season_re_match [] = None"
| "season_re_match (c # cs) =
     (case (if startswith (c # cs) '' - '' then season_digits (drop 3 (c # cs)) else None) of
        Some g \<Rightarrow> Some g
      | None \<Rightarrow> if c \<noteq> newline then season_re_match cs else None)"

fun season_re_search :: "string \<Rightarrow> string option" where
  "season_re_search [] = None"
| "season_re_search (c # cs) =
     (case season_re_match (c # cs) of Some g \<Rightarrow> Some g | None \<Rightarrow> season_re_search cs)"

subsection \<open>\<^verbatim>\<open>LegendasTvProvider.search_candidates\<close>\<close>

text \<open>
  \<^verbatim>\<open>x[k]\<close> and \<^verbatim>\<open>x.get(k)\<close> on an arbitrary value: only a dictionary has them.
\<close>

fun subscript :: "pyval \<Rightarrow> string \<Rightarrow> error + pyval" where
  "subscript (PDict d) k = (case map_of d k of None \<Rightarrow> Inl KeyError | Some v \<Rightarrow> Inr v)"
| "subscript v k = Inl TypeError"

fun dict_set :: "pydict \<Rightarrow> string \<Rightarrow> pyval \<Rightarrow> pydict" where
  "dict_set [] k v = [(k, v)]"
| "dict_set ((k', v') # d) k v = (if k' = k then (k, v) # d else (k', v') # dict_set d k v)"

definition mapping :: "(string \<times> string) list" where
  "mapping =
     [(''id'', ''id_filme''), (''type'', ''tipo''), (''title'', ''dsc_nome''),
      (''series'', ''dsc_nome''), (''season'', ''temporada''),
      (''year'', ''dsc_data_lancamento''), (''title_br'', ''dsc_nome_br''),
      (''imdb_id'', ''id_imdb'')]"

definition type_map :: "(string \<times> string) list" where
  "type_map = [(''M'', ''movie''), (''S'', ''episode''), (''C'', ''episode'')]"

text \<open>\<^verbatim>\<open>{k: entry.get(v) for k, v in mapping.items()}\<close>\<close>

fun project :: "pyval \<Rightarrow> error + pydict" where
  "project (PDict entry) = Inr (map (\<lambda>(k, v). (k, dict_get entry v)) mapping)"
| "project v = Inl AttributeError"

text \<open>\<^verbatim>\<open>type_map.get(x, 'movie')\<close>: a dictionary is not hashable and cannot be looked up.\<close>

fun type_map_get :: "pyval \<Rightarrow> error + string" where
  "type_map_get (PStr s) = Inr (case map_of type_map s of None \<Rightarrow> ''movie'' | Some t \<Rightarrow> t)"
| "type_map_get (PDict d) = Inl TypeError"
| "type_map_get v = Inr ''movie''"

text \<open>A regular expression searches strings only; group 1 of the match or \<^verbatim>\<open>None\<close>.\<close>

fun re_search_group :: "(string \<Rightarrow> string option) \<Rightarrow> pyval \<Rightarrow> error + pyval" where
  "re_search_group re (PStr s) = Inr (case re s of None \<Rightarrow> PNone | Some g \<Rightarrow> PStr g)"
| "re_search_group re v = Inl TypeError"

text \<open>
  \<^verbatim>\<open>int(field_text) if field_text and field_text.isdigit() else None\<close>. The strings come
  from \<^verbatim>\<open>json.loads\<close> and are unicode: \<^verbatim>\<open>isdigit\<close> also accepts the superscript
  digits \<open>0xB2\<close>, \<open>0xB3\<close> and \<open>0xB9\<close>, which \<^verbatim>\<open>int\<close> then rejects. A truthy value that
  is not a string has no \<^verbatim>\<open>isdigit\<close>.
\<close>

definition is_unicode_digit :: "char \<Rightarrow> bool" where
  "is_unicode_digit c =
     (is_digit c \<or> (of_char c :: nat) = 178 \<or> (of_char c :: nat) = 179 \<or> (of_char c :: nat) = 185)"

definition isdigit :: "string \<Rightarrow> bool" where
  "isdigit s = (s \<noteq> [] \<and> list_all is_unicode_digit s)"

definition digits_value :: "string \<Rightarrow> int" where
  "digits_value s = foldl (\<lambda>a c. 10 * a + (int (of_char c) - 48)) 0 s"

definition py_int :: "string \<Rightarrow> error + int" where
  "py_int s = (if s \<noteq> [] \<and> list_all is_digit s then Inr (digits_value s) else Inl ValueError)"

fun coerce :: "pyval \<Rightarrow> error + pyval" where
  "coerce (PStr s) =
     (if s \<noteq> [] \<and> isdigit s then (case py_int s of Inl e \<Rightarrow> Inl e | Inr n \<Rightarrow> Inr (PInt n))
      else Inr PNone)"
| "coerce v = (if truthy v then Inl AttributeError else Inr PNone)"

text \<open>\<^verbatim>\<open>for field in ['season', 'year', 'imdb_id']: ...\<close>\<close>

fun coerce_fields :: "string list \<Rightarrow> pydict \<Rightarrow> error + pydict" where
  "coerce_fields [] item = Inr item"
| "coerce_fields (field # rest) item =
     (case coerce (dict_get item field) of
        Inl e \<Rightarrow> Inl e
      | Inr v \<Rightarrow> coerce_fields rest (dict_set item field v))"

text \<open>
  The body of the loop over \<^verbatim>\<open>results\<close>, up to the call of \<^verbatim>\<open>matches\<close>: the
  statements in sequence (\<open>and_then\<close>), the first exception being the result.
  \<open>recover_season\<close> is the statement that reads the season from \<^verbatim>\<open>title_br\<close>.
\<close>

definition and_then :: "error + 'a \<Rightarrow> ('a \<Rightarrow> error + 'b) \<Rightarrow> error + 'b" where
  "and_then r f = (case r of Inl e \<Rightarrow> Inl e | Inr v \<Rightarrow> f v)"

definition recover_season :: "pydict \<Rightarrow> error + pydict" where
  "recover_season item =
     (if \<not> truthy (dict_get item ''season'') \<and> truthy (dict_get item ''title_br'')
      then and_then (re_search_group season_re_search (dict_get item ''title_br''))
             (\<lambda>g. Inr (dict_set item ''season'' g))
      else Inr item)"

definition normalize :: "pyval \<Rightarrow> error + pydict" where
  "normalize result =
     and_then (subscript result ''_source'') (\<lambda>entry.
     and_then (project entry) (\<lambda>item0.
     and_then (type_map_get (dict_get item0 ''type'')) (\<lambda>t.
     and_then (re_search_group imdb_re_search (dict_get (dict_set item0 ''type'' (PStr t)) ''imdb_id''))
       (\<lambda>imdb.
     and_then (recover_season (dict_set (dict_set item0 ''type'' (PStr t)) ''imdb_id'' imdb))
       (\<lambda>item.
     coerce_fields [''season'', ''year'', ''imdb_id''] item)))))"

text \<open>
  The loop: \<open>results\<close> is the list \<^verbatim>\<open>json.loads(r.text)\<close>, \<open>candidates\<close> the list
  built so far. The first exception ends the call.
\<close>

fun candidates_loop ::
  "(string \<Rightarrow> pyval \<Rightarrow> bool \<Rightarrow> bool) \<Rightarrow> string \<Rightarrow> int option \<Rightarrow> int option \<Rightarrow> int option \<Rightarrow>
   pyval list \<Rightarrow> pydict list \<Rightarrow> error + pydict list" where
  "candidates_loop eq title season episode year [] candidates = Inr candidates"
| "candidates_loop eq title season episode year (result # results) candidates =
     (case normalize result of
        Inl e \<Rightarrow> Inl e
      | Inr item \<Rightarrow>
          candidates_loop eq title season episode year results
            (if matches eq item title season episode year True
             then candidates @ [item] else candidates))"

definition search_candidates ::
  "(string \<Rightarrow> pyval \<Rightarrow> bool \<Rightarrow> bool) \<Rightarrow> pyval list \<Rightarrow> string \<Rightarrow> int option \<Rightarrow> int option \<Rightarrow>
   int option \<Rightarrow> error + pydict list" where
  "search_candidates eq results title season episode year =
     candidates_loop eq title season episode year results []"

text \<open>
  The record of the comment in \<^verbatim>\<open>search_candidates\<close>, with \<^verbatim>\<open>temporada\<close> null as
  the note below it describes; \<open>0xAA\<close> is the ordinal indicator of the title.
\<close>

definition breaking_bad_hit :: pyval where
  "breaking_bad_hit =
     PDict [(''_index'', PStr ''filmes''), (''_type'', PStr ''filme''), (''_id'', PStr ''24551''),
            (''_score'', PNone),
            (''_source'', PDict
               [(''id_filme'', PStr ''24551''), (''id_imdb'', PStr ''903747''),
                (''tipo'', PStr ''S''), (''int_genero'', PStr ''1036''),
                (''dsc_imagen'', PStr ''tt903747.jpg''), (''dsc_nome'', PStr ''Breaking Bad''),
                (''dsc_data_lancamento'', PStr ''2011''),
                (''dsc_nome_br'', PStr (''Breaking Bad - 4'' @ [CHR 0xAA] @ '' Temporada'')),
                (''soundex'', PNone), (''temporada'', PNone)])]"

section \<open>Properties\<close>

subsection \<open>String predicates\<close>

lemma startswith_prefix: "startswith s p \<longleftrightarrow> prefix p s"
  by (induction s p rule: startswith.induct) auto

lemma endswith_suffix: "endswith s p \<longleftrightarrow> suffix p s"
  by (simp add: endswith_def startswith_prefix suffix_to_prefix)

lemma contains_sublist: "contains s p \<longleftrightarrow> sublist p s"
  by (induction s) (auto simp: startswith_prefix sublist_Cons_right)

lemma endswith_any_iff: "endswith_any s ps \<longleftrightarrow> (\<exists>p \<in> set ps. suffix p s)"
  by (simp add: endswith_any_def list_ex_iff endswith_suffix)

subsection \<open>The metadata predicate\<close>

text \<open>
  C3. For every actual dictionary, expected title, season, episode and year, and every
  title comparison: a call of \<open>matches\<close> that returns true with \<^verbatim>\<open>ignore_episode=False\<close>
  returns true with \<^verbatim>\<open>ignore_episode=True\<close> on the same arguments.
\<close>

theorem matches_ignore_episode_mono:
  "matches eq actual_properties expected_title expected_season expected_episode expected_year False
   \<Longrightarrow> matches eq actual_properties expected_title expected_season expected_episode expected_year True"
  by (auto simp: matches_def Let_def split: if_splits)

theorem matches_ignore_episode_mono_witness:
  "matches sanitized_string_equal
     [(''type'', PStr ''episode''), (''title'', PStr ''Breaking Bad''),
      (''season'', PInt 4), (''episode'', PInt 3)] ''Breaking Bad'' (Some 4) (Some 3) None False
   \<and> matches sanitized_string_equal
     [(''type'', PStr ''episode''), (''title'', PStr ''Breaking Bad''),
      (''season'', PInt 4), (''episode'', PInt 3)] ''Breaking Bad'' (Some 4) (Some 3) None True"
proof -
  have h: "matches sanitized_string_equal
     [(''type'', PStr ''episode''), (''title'', PStr ''Breaking Bad''),
      (''season'', PInt 4), (''episode'', PInt 3)] ''Breaking Bad'' (Some 4) (Some 3) None False"
    by code_simp
  from matches_ignore_episode_mono [OF h] h show ?thesis by simp
qed

text \<open>
  C10. When the expected season is \<^verbatim>\<open>None\<close> or \<open>0\<close> the expected type is
  \<^verbatim>\<open>'movie'\<close>, so actual properties whose type is \<^verbatim>\<open>'episode'\<close> are rejected, whatever
  the other arguments are: a query for season 0 never matches episode metadata.
\<close>

theorem matches_falsy_season_rejects_episode:
  assumes "expected_season = None \<or> expected_season = Some 0"
    and "dict_get actual_properties ''type'' = PStr ''episode''"
  shows "\<not> matches eq actual_properties expected_title expected_season expected_episode
             expected_year ignore_episode"
  using assms by (elim disjE) (simp_all add: matches_def)

theorem matches_falsy_season_rejects_episode_witness:
  "\<not> matches sanitized_string_equal
       [(''type'', PStr ''episode''), (''title'', PStr ''Show''), (''season'', PInt 0),
        (''episode'', PInt 1)] ''Show'' (Some 0) (Some 1) None True"
proof -
  have t: "dict_get [(''type'', PStr ''episode''), (''title'', PStr ''Show''),
        (''season'', PInt 0), (''episode'', PInt 1)] ''type'' = PStr ''episode''"
    by (simp add: dict_get_def)
  have s: "Some (0::int) = None \<or> Some (0::int) = Some 0" by simp
  show ?thesis by (rule matches_falsy_season_rejects_episode [OF s t])
qed

text \<open>
  C1, as stated: with no year on either side a movie match needs exact title equality, so
  \<^verbatim>\<open>'Up'\<close> against \<^verbatim>\<open>'Up 2'\<close> is no match. The code compares the years first:
  \<^verbatim>\<open>None != None\<close> is false, the exact comparison is never reached and the partial
  comparison decides. With the comparison of the specification, \<^verbatim>\<open>'Up'\<close> against
  \<^verbatim>\<open>'Up 2'\<close> is a match although the titles are not exactly equal.
\<close>

theorem matches_movie_no_years_counterexample:
  "matches sanitized_string_equal [(''type'', PStr ''movie''), (''title'', PStr ''Up 2'')]
     ''Up'' None None None False
   \<and> \<not> sanitized_string_equal ''Up'' (PStr ''Up 2'') False"
  by code_simp

text \<open>
  C1, amended. In the movie branch (expected season falsy, actual type \<^verbatim>\<open>'movie'\<close>)
  the partial title comparison must hold. When the two years are equal, in particular
  when neither is present, nothing more is required. When they differ and both are truthy
  (present and not 0) there is no match. When they differ and one of them is \<^verbatim>\<open>None\<close>
  or 0, the exact comparison is required as well. \<^verbatim>\<open>'Up'\<close> against \<^verbatim>\<open>'Up'\<close> with no
  years is a match.
\<close>

theorem matches_movie_year_rule:
  assumes "\<not> truthy (of_opt expected_season)"
    and "dict_get actual_properties ''type'' = PStr ''movie''"
  shows "(of_opt expected_year = dict_get actual_properties ''year'' \<longrightarrow>
            matches eq actual_properties expected_title expected_season expected_episode
              expected_year ignore_episode
            = eq expected_title (dict_get actual_properties ''title'') True)
       \<and> (expected_year = None \<and> dict_get actual_properties ''year'' = PNone \<longrightarrow>
            matches eq actual_properties expected_title expected_season expected_episode
              expected_year ignore_episode
            = eq expected_title (dict_get actual_properties ''title'') True)
       \<and> (of_opt expected_year \<noteq> dict_get actual_properties ''year''
            \<and> truthy (of_opt expected_year) \<and> truthy (dict_get actual_properties ''year'') \<longrightarrow>
            \<not> matches eq actual_properties expected_title expected_season expected_episode
                expected_year ignore_episode)
       \<and> (of_opt expected_year \<noteq> dict_get actual_properties ''year''
            \<and> \<not> (truthy (of_opt expected_year) \<and> truthy (dict_get actual_properties ''year''))
          \<longrightarrow>
            matches eq actual_properties expected_title expected_season expected_episode
              expected_year ignore_episode
            = (eq expected_title (dict_get actual_properties ''title'') True
               \<and> eq expected_title (dict_get actual_properties ''title'') False))
       \<and> matches sanitized_string_equal [(''type'', PStr ''movie''), (''title'', PStr ''Up'')]
            ''Up'' None None None False"
proof (intro conjI impI)
  show "matches sanitized_string_equal [(''type'', PStr ''movie''), (''title'', PStr ''Up'')]
            ''Up'' None None None False"
    by code_simp
next
  assume "of_opt expected_year = dict_get actual_properties ''year''"
  with assms show "matches eq actual_properties expected_title expected_season expected_episode
              expected_year ignore_episode
            = eq expected_title (dict_get actual_properties ''title'') True"
    by (simp add: matches_def)
next
  assume "expected_year = None \<and> dict_get actual_properties ''year'' = PNone"
  with assms show "matches eq actual_properties expected_title expected_season expected_episode
              expected_year ignore_episode
            = eq expected_title (dict_get actual_properties ''title'') True"
    by (simp add: matches_def)
next
  assume "of_opt expected_year \<noteq> dict_get actual_properties ''year''
            \<and> truthy (of_opt expected_year) \<and> truthy (dict_get actual_properties ''year'')"
  with assms show "\<not> matches eq actual_properties expected_title expected_season expected_episode
                expected_year ignore_episode"
    by (simp add: matches_def)
next
  assume "of_opt expected_year \<noteq> dict_get actual_properties ''year''
            \<and> \<not> (truthy (of_opt expected_year) \<and> truthy (dict_get actual_properties ''year''))"
  with assms show "matches eq actual_properties expected_title expected_season expected_episode
              expected_year ignore_episode
            = (eq expected_title (dict_get actual_properties ''title'') True
               \<and> eq expected_title (dict_get actual_properties ''title'') False)"
    by (auto simp: matches_def)
qed

theorem matches_movie_year_rule_witness:
  "matches sanitized_string_equal [(''type'', PStr ''movie''), (''title'', PStr ''Up 2'')]
      ''Up'' None None None False
     = sanitized_string_equal ''Up'' (PStr ''Up 2'') True
   \<and> matches sanitized_string_equal
       [(''type'', PStr ''movie''), (''title'', PStr ''Up 2''), (''year'', PInt 2009)]
       ''Up'' None None None False
     = (sanitized_string_equal ''Up'' (PStr ''Up 2'') True
        \<and> sanitized_string_equal ''Up'' (PStr ''Up 2'') False)
   \<and> matches sanitized_string_equal
       [(''type'', PStr ''movie''), (''title'', PStr ''Up 2''), (''year'', PInt 2009)]
       ''Up'' None None (Some 0) False
     = (sanitized_string_equal ''Up'' (PStr ''Up 2'') True
        \<and> sanitized_string_equal ''Up'' (PStr ''Up 2'') False)
   \<and> \<not> matches sanitized_string_equal
       [(''type'', PStr ''movie''), (''title'', PStr ''Up 2''), (''year'', PInt 2009)]
       ''Up'' None None (Some 2010) False"
proof -
  have s: "\<not> truthy (of_opt None)" by simp
  have t1: "dict_get [(''type'', PStr ''movie''), (''title'', PStr ''Up 2'')] ''type''
              = PStr ''movie''"
    by (simp add: dict_get_def)
  have t2: "dict_get [(''type'', PStr ''movie''), (''title'', PStr ''Up 2''),
                      (''year'', PInt 2009)] ''type'' = PStr ''movie''"
    by (simp add: dict_get_def)
  have y1: "dict_get [(''type'', PStr ''movie''), (''title'', PStr ''Up 2'')] ''year'' = PNone"
    by (simp add: dict_get_def)
  have y2: "dict_get [(''type'', PStr ''movie''), (''title'', PStr ''Up 2''),
                      (''year'', PInt 2009)] ''year'' = PInt 2009"
    by (simp add: dict_get_def)
  have n1: "dict_get [(''type'', PStr ''movie''), (''title'', PStr ''Up 2'')] ''title''
              = PStr ''Up 2''"
    by (simp add: dict_get_def)
  have n2: "dict_get [(''type'', PStr ''movie''), (''title'', PStr ''Up 2''),
                      (''year'', PInt 2009)] ''title'' = PStr ''Up 2''"
    by (simp add: dict_get_def)
  from matches_movie_year_rule [OF s t1, of None sanitized_string_equal "''Up''" None False] y1 n1
  have a: "matches sanitized_string_equal [(''type'', PStr ''movie''), (''title'', PStr ''Up 2'')]
      ''Up'' None None None False
     = sanitized_string_equal ''Up'' (PStr ''Up 2'') True"
    by simp
  from matches_movie_year_rule [OF s t2, of None sanitized_string_equal "''Up''" None False] y2 n2
  have b: "matches sanitized_string_equal
       [(''type'', PStr ''movie''), (''title'', PStr ''Up 2''), (''year'', PInt 2009)]
       ''Up'' None None None False
     = (sanitized_string_equal ''Up'' (PStr ''Up 2'') True
        \<and> sanitized_string_equal ''Up'' (PStr ''Up 2'') False)"
    by simp
  from matches_movie_year_rule [OF s t2, of "Some 0" sanitized_string_equal "''Up''" None False] y2 n2
  have c: "matches sanitized_string_equal
       [(''type'', PStr ''movie''), (''title'', PStr ''Up 2''), (''year'', PInt 2009)]
       ''Up'' None None (Some 0) False
     = (sanitized_string_equal ''Up'' (PStr ''Up 2'') True
        \<and> sanitized_string_equal ''Up'' (PStr ''Up 2'') False)"
    by simp
  from matches_movie_year_rule [OF s t2, of "Some 2010" sanitized_string_equal "''Up''" None False] y2
  have d: "\<not> matches sanitized_string_equal
       [(''type'', PStr ''movie''), (''title'', PStr ''Up 2''), (''year'', PInt 2009)]
       ''Up'' None None (Some 2010) False"
    by simp
  from a b c d show ?thesis by (simp only: simp_thms)
qed

subsection \<open>The ranking\<close>

lemma mset_list_sort_reverse: "mset (list_sort_reverse k xs) = mset xs"
  by (simp add: list_sort_reverse_def)

lemma sorted_list_sort_reverse: "sorted_wrt (\<lambda>a b. k b \<le> k a) (list_sort_reverse k xs)"
proof -
  have "sorted (map k (sort_key k (rev xs)))" by simp
  then have "sorted_wrt (\<lambda>a b. k a \<le> k b) (sort_key k (rev xs))"
    by (simp add: sorted_map)
  then show ?thesis
    by (simp add: list_sort_reverse_def sorted_wrt_rev)
qed

lemma stable_list_sort_reverse:
  "filter (\<lambda>x. k x = c) (list_sort_reverse k xs) = filter (\<lambda>x. k x = c) xs"
proof -
  have "filter (\<lambda>x. k x = c) (list_sort_reverse k xs)
          = rev (filter (\<lambda>x. k x = c) (sort_key k (rev xs)))"
    by (simp add: list_sort_reverse_def rev_filter)
  also have "\<dots> = rev (filter (\<lambda>x. k x = c) (rev xs))"
    by (simp only: sort_key_stable)
  also have "\<dots> = filter (\<lambda>x. k x = c) xs"
    by (simp add: rev_filter)
  finally show ?thesis .
qed

lemma pack_first:
  "sort_key_of b \<le> sort_key_of a \<Longrightarrow>
   (s_featured a, s_no_downloads a, s_rating a) = (s_featured b, s_no_downloads b, s_rating b) \<Longrightarrow>
   s_multiple_episodes b \<le> s_multiple_episodes a"
  by (auto simp: sort_key_of_def)

text \<open>
  C2, as stated: of two records equal on (featured, downloads, rating) the one that is not
  a pack comes first, and the four records
  (true,10,8,false), (true,10,8,true), (false,100,10,false), (false,0,0,false) come out in
  that order. The sort is descending on the whole key and \<^verbatim>\<open>True > False\<close>, so the
  pack comes first: the first two records come out exchanged.
\<close>

theorem sort_subtitles_counterexample:
  "sort_subtitles
     [LegendasTvSubtitle ''a'' True (Some 10) (Some 8) False,
      LegendasTvSubtitle ''b'' True (Some 10) (Some 8) True,
      LegendasTvSubtitle ''c'' False (Some 100) (Some 10) False,
      LegendasTvSubtitle ''d'' False (Some 0) (Some 0) False]
   = [LegendasTvSubtitle ''b'' True (Some 10) (Some 8) True,
      LegendasTvSubtitle ''a'' True (Some 10) (Some 8) False,
      LegendasTvSubtitle ''c'' False (Some 100) (Some 10) False,
      LegendasTvSubtitle ''d'' False (Some 0) (Some 0) False]"
  by (simp add: sort_subtitles_def list_sort_reverse_def sort_key_of_def LegendasTvSubtitle_def)

text \<open>
  C2, amended. The final sort of \<^verbatim>\<open>query\<close> returns a permutation of the records that is
  descending in the key (featured, no_downloads, rating, multiple_episodes); records with
  equal keys keep the order they had; among records equal on
  (featured, no_downloads, rating) a pack is never behind a record that is not a pack; a
  missing download count or rating is below every present one.
\<close>

theorem sort_subtitles_descending_stable:
  "mset (sort_subtitles subtitles) = mset subtitles
   \<and> sorted_wrt (\<lambda>a b. sort_key_of b \<le> sort_key_of a) (sort_subtitles subtitles)
   \<and> (\<forall>k. filter (\<lambda>s. sort_key_of s = k) (sort_subtitles subtitles)
            = filter (\<lambda>s. sort_key_of s = k) subtitles)
   \<and> sorted_wrt (\<lambda>a b. (s_featured a, s_no_downloads a, s_rating a)
                         = (s_featured b, s_no_downloads b, s_rating b)
                       \<longrightarrow> (s_multiple_episodes b \<longrightarrow> s_multiple_episodes a))
       (sort_subtitles subtitles)
   \<and> (\<forall>n f r m n' d r' m'. sort_key_of (LegendasTvSubtitle n f None r m)
                 < sort_key_of (LegendasTvSubtitle n' f (Some d) r' m'))
   \<and> (\<forall>n f d m n' r m'. sort_key_of (LegendasTvSubtitle n f d None m)
                 < sort_key_of (LegendasTvSubtitle n' f d (Some r) m'))"
proof (intro conjI allI)
  show "mset (sort_subtitles subtitles) = mset subtitles"
    by (simp add: sort_subtitles_def mset_list_sort_reverse)
  show d: "sorted_wrt (\<lambda>a b. sort_key_of b \<le> sort_key_of a) (sort_subtitles subtitles)"
    by (simp add: sort_subtitles_def sorted_list_sort_reverse)
  show "filter (\<lambda>s. sort_key_of s = k) (sort_subtitles subtitles)
          = filter (\<lambda>s. sort_key_of s = k) subtitles" for k
    by (simp add: sort_subtitles_def stable_list_sort_reverse)
  show "sorted_wrt (\<lambda>a b. (s_featured a, s_no_downloads a, s_rating a)
                         = (s_featured b, s_no_downloads b, s_rating b)
                       \<longrightarrow> (s_multiple_episodes b \<longrightarrow> s_multiple_episodes a))
       (sort_subtitles subtitles)"
    by (rule sorted_wrt_mono_rel [OF _ d]) (auto dest: pack_first)
  show "sort_key_of (LegendasTvSubtitle n f None r m)
                 < sort_key_of (LegendasTvSubtitle n' f (Some d) r' m')" for n f r m n' d r' m'
    by (simp add: sort_key_of_def LegendasTvSubtitle_def)
  show "sort_key_of (LegendasTvSubtitle n f d None m)
                 < sort_key_of (LegendasTvSubtitle n' f d (Some r) m')" for n f d m n' r m'
    by (simp add: sort_key_of_def LegendasTvSubtitle_def)
qed

theorem sort_subtitles_descending_stable_witness:
  "sorted_wrt (\<lambda>a b. sort_key_of b \<le> sort_key_of a)
     [LegendasTvSubtitle ''b'' True (Some 10) (Some 8) True,
      LegendasTvSubtitle ''a'' True (Some 10) (Some 8) False,
      LegendasTvSubtitle ''c'' False (Some 100) (Some 10) False,
      LegendasTvSubtitle ''d'' False (Some 0) (Some 0) False]"
proof -
  have e: "sort_subtitles
     [LegendasTvSubtitle ''a'' True (Some 10) (Some 8) False,
      LegendasTvSubtitle ''b'' True (Some 10) (Some 8) True,
      LegendasTvSubtitle ''c'' False (Some 100) (Some 10) False,
      LegendasTvSubtitle ''d'' False (Some 0) (Some 0) False]
   = [LegendasTvSubtitle ''b'' True (Some 10) (Some 8) True,
      LegendasTvSubtitle ''a'' True (Some 10) (Some 8) False,
      LegendasTvSubtitle ''c'' False (Some 100) (Some 10) False,
      LegendasTvSubtitle ''d'' False (Some 0) (Some 0) False]"
    by (simp add: sort_subtitles_def list_sort_reverse_def sort_key_of_def
        LegendasTvSubtitle_def)
  from sort_subtitles_descending_stable
    [of "[LegendasTvSubtitle ''a'' True (Some 10) (Some 8) False,
      LegendasTvSubtitle ''b'' True (Some 10) (Some 8) True,
      LegendasTvSubtitle ''c'' False (Some 100) (Some 10) False,
      LegendasTvSubtitle ''d'' False (Some 0) (Some 0) False]"]
  show ?thesis unfolding e by blast
qed

subsection \<open>Archives\<close>

lemma open_archive_recognised:
  assumes "(is_rarfile lib content \<and> RarFile lib content = Inr cf)
         \<or> (\<not> is_rarfile lib content \<and> is_zipfile lib content \<and> ZipFile lib content = Inr cf)"
  shows "open_archive lib content = Inr (Some cf)"
  using assms by (auto simp: open_archive_def)

lemma open_archive_unrecognised:
  "\<not> is_rarfile lib content \<Longrightarrow> \<not> is_zipfile lib content \<Longrightarrow> open_archive lib content = Inr None"
  by (simp add: open_archive_def)

lemma open_single_zip_lib:
  "open_archive (single_zip_lib z ms) b = (if b = z then Inr (Some (zip_members ms)) else Inr None)"
  by (simp add: open_archive_def single_zip_lib_def)

text \<open>
  C5, as stated: on bytes that are neither a RAR nor a ZIP container
  \<^verbatim>\<open>get_subtitle_names\<close> returns an empty list of names. \<^verbatim>\<open>_uncompress\<close> returns
  \<^verbatim>\<open>None\<close> there, for both callers: the result is no list at all.
\<close>

theorem get_subtitle_names_unrecognised_counterexample:
  "get_subtitle_names (single_zip_lib [80, 75, 5, 6] []) [''.srt''] [104, 105] = Inr None
   \<and> get_subtitle_names (single_zip_lib [80, 75, 5, 6] []) [''.srt''] [104, 105] \<noteq> Inr (Some [])"
  by (simp add: get_subtitle_names_def uncompress_def open_single_zip_lib)

text \<open>
  C5, amended. On bytes that neither probe recognises, \<^verbatim>\<open>get_subtitle_names\<close> and
  \<^verbatim>\<open>extract_subtitle\<close> both return \<^verbatim>\<open>None\<close> and raise nothing.
\<close>

theorem uncompress_unrecognised_is_None:
  assumes "\<not> is_rarfile lib content" and "\<not> is_zipfile lib content"
  shows "get_subtitle_names lib SUBTITLE_EXTENSIONS content = Inr None
       \<and> extract_subtitle lib fix content subtitle_name = Inr None"
  using assms
  by (simp add: get_subtitle_names_def extract_subtitle_def uncompress_def
      open_archive_unrecognised)

theorem uncompress_unrecognised_is_None_witness:
  "get_subtitle_names (single_zip_lib [80, 75, 5, 6] []) [''.srt''] [104, 105] = Inr None
   \<and> extract_subtitle (single_zip_lib [80, 75, 5, 6] []) id [104, 105] ''a.srt'' = Inr None"
proof -
  have r: "\<not> is_rarfile (single_zip_lib [80, 75, 5, 6] []) [104, 105]"
    by (simp add: single_zip_lib_def)
  have z: "\<not> is_zipfile (single_zip_lib [80, 75, 5, 6] []) [104, 105]"
    by (simp add: single_zip_lib_def)
  show ?thesis by (rule uncompress_unrecognised_is_None [OF r z])
qed

subsection \<open>Lower case\<close>

lemma upper_alphabet: "map char_of [65..<91::nat] = ''ABCDEFGHIJKLMNOPQRSTUVWXYZ''"
  by code_simp

lemma is_upper_alphabet: "is_upper c \<longleftrightarrow> c \<in> set ''ABCDEFGHIJKLMNOPQRSTUVWXYZ''"
proof
  assume "is_upper c"
  then have "(of_char c :: nat) \<in> {65..<91}" by (simp add: is_upper_def)
  then have "(of_char c :: nat) \<in> set [65..<91]" by (simp only: set_upt)
  then have "char_of (of_char c :: nat) \<in> set (map char_of [65..<91::nat])"
    by (simp only: set_map) (rule imageI)
  then show "c \<in> set ''ABCDEFGHIJKLMNOPQRSTUVWXYZ''"
    by (simp only: upper_alphabet char_of_char)
next
  assume "c \<in> set ''ABCDEFGHIJKLMNOPQRSTUVWXYZ''"
  then show "is_upper c" by (auto simp: is_upper_def)
qed

lemma lower_alphabet: "lower ''ABCDEFGHIJKLMNOPQRSTUVWXYZ'' = ''abcdefghijklmnopqrstuvwxyz''"
  by code_simp

lemma lower_no_upper:
  "\<forall>c \<in> set s. c \<notin> set ''ABCDEFGHIJKLMNOPQRSTUVWXYZ'' \<Longrightarrow> lower s = s"
  unfolding lower_def by (rule map_idI) (simp add: lower_char_def is_upper_alphabet)

lemma lower_append: "lower (a @ b) = lower a @ lower b"
  by (simp add: lower_def)

lemma length_lower: "length (lower s) = length s"
  by (simp add: lower_def)

text \<open>
  C6. On bytes recognised as a RAR archive, or else as a ZIP archive, that the library
  opens, \<^verbatim>\<open>get_subtitle_names\<close> returns the member names, in the order of the archive,
  whose lower-case form ends with one of the subtitle extensions and does not contain
  \<^verbatim>\<open>legendas.tv\<close>. For the members \<^verbatim>\<open>Show.S01E01.srt\<close> and \<^verbatim>\<open>legendas.tv.nfo\<close>,
  with \<^verbatim>\<open>.srt\<close> among the extensions, the result is the first name alone. Case does not
  matter: \<^verbatim>\<open>SHOW.S01E02.SRT\<close> is kept and \<^verbatim>\<open>Legendas.TV.srt\<close> is dropped. The lower-case
  form turns each of the letters A to Z into its small letter and leaves every other
  character as it is.
\<close>

theorem get_subtitle_names_filter:
  assumes "(is_rarfile lib content \<and> RarFile lib content = Inr cf)
         \<or> (\<not> is_rarfile lib content \<and> is_zipfile lib content \<and> ZipFile lib content = Inr cf)"
  shows "get_subtitle_names lib SUBTITLE_EXTENSIONS content
           = Inr (Some (filter (\<lambda>f. (\<exists>e \<in> set SUBTITLE_EXTENSIONS. suffix e (lower f))
                                     \<and> \<not> sublist ''legendas.tv'' (lower f))
                          (namelist cf)))
       \<and> (namelist cf = [''Show.S01E01.srt'', ''legendas.tv.nfo'']
            \<and> ''.srt'' \<in> set SUBTITLE_EXTENSIONS
          \<longrightarrow> get_subtitle_names lib SUBTITLE_EXTENSIONS content = Inr (Some [''Show.S01E01.srt'']))
       \<and> (namelist cf = [''SHOW.S01E02.SRT'', ''Legendas.TV.srt'', ''Show.S01E01.srt'',
                          ''legendas.tv.nfo'']
            \<and> ''.srt'' \<in> set SUBTITLE_EXTENSIONS
          \<longrightarrow> get_subtitle_names lib SUBTITLE_EXTENSIONS content
                = Inr (Some [''SHOW.S01E02.SRT'', ''Show.S01E01.srt'']))
       \<and> lower ''ABCDEFGHIJKLMNOPQRSTUVWXYZ'' = ''abcdefghijklmnopqrstuvwxyz''
       \<and> (\<forall>s. (\<forall>c \<in> set s. c \<notin> set ''ABCDEFGHIJKLMNOPQRSTUVWXYZ'') \<longrightarrow> lower s = s)
       \<and> (\<forall>a b. lower (a @ b) = lower a @ lower b)
       \<and> (\<forall>s. length (lower s) = length s)"
proof -
  have 1: "get_subtitle_names lib SUBTITLE_EXTENSIONS content
           = Inr (Some (filter (\<lambda>f. (\<exists>e \<in> set SUBTITLE_EXTENSIONS. suffix e (lower f))
                                     \<and> \<not> sublist ''legendas.tv'' (lower f))
                          (namelist cf)))"
    by (simp add: get_subtitle_names_def uncompress_def open_archive_recognised [OF assms]
        contains_sublist endswith_any_iff conj_commute)
  have a: "suffix ''.srt'' (lower ''Show.S01E01.srt'')"
    unfolding endswith_suffix [symmetric] by code_simp
  have b: "\<not> sublist ''legendas.tv'' (lower ''Show.S01E01.srt'')"
    unfolding contains_sublist [symmetric] by code_simp
  have c: "sublist ''legendas.tv'' (lower ''legendas.tv.nfo'')"
    unfolding contains_sublist [symmetric] by code_simp
  have d: "suffix ''.srt'' (lower ''SHOW.S01E02.SRT'')"
    unfolding endswith_suffix [symmetric] by code_simp
  have e: "\<not> sublist ''legendas.tv'' (lower ''SHOW.S01E02.SRT'')"
    unfolding contains_sublist [symmetric] by code_simp
  have f: "sublist ''legendas.tv'' (lower ''Legendas.TV.srt'')"
    unfolding contains_sublist [symmetric] by code_simp
  have 2: "namelist cf = [''Show.S01E01.srt'', ''legendas.tv.nfo'']
            \<and> ''.srt'' \<in> set SUBTITLE_EXTENSIONS
          \<longrightarrow> get_subtitle_names lib SUBTITLE_EXTENSIONS content = Inr (Some [''Show.S01E01.srt''])"
    unfolding 1 using a b c by auto
  have 3: "namelist cf = [''SHOW.S01E02.SRT'', ''Legendas.TV.srt'', ''Show.S01E01.srt'',
                          ''legendas.tv.nfo'']
            \<and> ''.srt'' \<in> set SUBTITLE_EXTENSIONS
          \<longrightarrow> get_subtitle_names lib SUBTITLE_EXTENSIONS content
                = Inr (Some [''SHOW.S01E02.SRT'', ''Show.S01E01.srt''])"
    unfolding 1 using a b c d e f by auto
  have 4: "\<forall>s. (\<forall>c \<in> set s. c \<notin> set ''ABCDEFGHIJKLMNOPQRSTUVWXYZ'') \<longrightarrow> lower s = s"
    by (intro allI impI) (rule lower_no_upper)
  from 1 2 3 4 lower_alphabet lower_append length_lower show ?thesis
    by (simp only: simp_thms)
qed

theorem get_subtitle_names_filter_witness:
  "get_subtitle_names
     (single_zip_lib [80, 75, 5, 6]
        [(''SHOW.S01E02.SRT'', [50]), (''Legendas.TV.srt'', []),
         (''Show.S01E01.srt'', [49, 13, 10]), (''legendas.tv.nfo'', [])])
     [''.srt'', ''.sub''] [80, 75, 5, 6]
   = Inr (Some [''SHOW.S01E02.SRT'', ''Show.S01E01.srt''])"
proof -
  have h: "(is_rarfile (single_zip_lib [80, 75, 5, 6]
        [(''SHOW.S01E02.SRT'', [50]), (''Legendas.TV.srt'', []),
         (''Show.S01E01.srt'', [49, 13, 10]), (''legendas.tv.nfo'', [])]) [80, 75, 5, 6]
             \<and> RarFile (single_zip_lib [80, 75, 5, 6]
        [(''SHOW.S01E02.SRT'', [50]), (''Legendas.TV.srt'', []),
         (''Show.S01E01.srt'', [49, 13, 10]), (''legendas.tv.nfo'', [])]) [80, 75, 5, 6]
                = Inr (zip_members
        [(''SHOW.S01E02.SRT'', [50]), (''Legendas.TV.srt'', []),
         (''Show.S01E01.srt'', [49, 13, 10]), (''legendas.tv.nfo'', [])]))
         \<or> (\<not> is_rarfile (single_zip_lib [80, 75, 5, 6]
        [(''SHOW.S01E02.SRT'', [50]), (''Legendas.TV.srt'', []),
         (''Show.S01E01.srt'', [49, 13, 10]), (''legendas.tv.nfo'', [])]) [80, 75, 5, 6]
             \<and> is_zipfile (single_zip_lib [80, 75, 5, 6]
        [(''SHOW.S01E02.SRT'', [50]), (''Legendas.TV.srt'', []),
         (''Show.S01E01.srt'', [49, 13, 10]), (''legendas.tv.nfo'', [])]) [80, 75, 5, 6]
             \<and> ZipFile (single_zip_lib [80, 75, 5, 6]
        [(''SHOW.S01E02.SRT'', [50]), (''Legendas.TV.srt'', []),
         (''Show.S01E01.srt'', [49, 13, 10]), (''legendas.tv.nfo'', [])]) [80, 75, 5, 6]
                = Inr (zip_members
        [(''SHOW.S01E02.SRT'', [50]), (''Legendas.TV.srt'', []),
         (''Show.S01E01.srt'', [49, 13, 10]), (''legendas.tv.nfo'', [])]))"
    by (simp add: single_zip_lib_def)
  have n: "namelist (zip_members
        [(''SHOW.S01E02.SRT'', [50]), (''Legendas.TV.srt'', []),
         (''Show.S01E01.srt'', [49, 13, 10]), (''legendas.tv.nfo'', [])])
             = [''SHOW.S01E02.SRT'', ''Legendas.TV.srt'', ''Show.S01E01.srt'',
                ''legendas.tv.nfo'']
           \<and> ''.srt'' \<in> set [''.srt'', ''.sub'']"
    by (simp add: zip_members_def)
  from get_subtitle_names_filter [OF h, of "[''.srt'', ''.sub'']"]
  have "namelist (zip_members
        [(''SHOW.S01E02.SRT'', [50]), (''Legendas.TV.srt'', []),
         (''Show.S01E01.srt'', [49, 13, 10]), (''legendas.tv.nfo'', [])])
             = [''SHOW.S01E02.SRT'', ''Legendas.TV.srt'', ''Show.S01E01.srt'',
                ''legendas.tv.nfo'']
           \<and> ''.srt'' \<in> set [''.srt'', ''.sub'']
        \<longrightarrow> get_subtitle_names
     (single_zip_lib [80, 75, 5, 6]
        [(''SHOW.S01E02.SRT'', [50]), (''Legendas.TV.srt'', []),
         (''Show.S01E01.srt'', [49, 13, 10]), (''legendas.tv.nfo'', [])])
     [''.srt'', ''.sub''] [80, 75, 5, 6]
   = Inr (Some [''SHOW.S01E02.SRT'', ''Show.S01E01.srt''])"
    by (elim conjE)
  with n show ?thesis by (rule rev_mp)
qed

subsection \<open>Dictionaries, coercion and the regular expressions\<close>

lemma dict_get_dict_set:
  "dict_get (dict_set d k v) k' = (if k' = k then v else dict_get d k')"
  by (induction d) (auto simp: dict_get_def)

lemma and_then_Inr: "and_then r f = Inr y \<longleftrightarrow> (\<exists>v. r = Inr v \<and> f v = Inr y)"
  by (cases r) (simp_all add: and_then_def)

lemma and_then_Inl [simp]: "and_then (Inl e) f = Inl e"
  by (simp add: and_then_def)

lemma and_then_Inr_simp [simp]: "and_then (Inr v) f = f v"
  by (simp add: and_then_def)

lemma digits_fold_nonneg:
  "0 \<le> a \<Longrightarrow> list_all is_digit s \<Longrightarrow> 0 \<le> foldl (\<lambda>a c. 10 * a + (int (of_char c) - 48)) a s"
  by (induction s arbitrary: a) (auto simp: is_digit_def)

lemma digits_value_nonneg: "list_all is_digit s \<Longrightarrow> 0 \<le> digits_value s"
  by (simp add: digits_value_def digits_fold_nonneg)

lemma coerce_PInt:
  "coerce v = Inr (PInt n) \<longleftrightarrow> (\<exists>s. v = PStr s \<and> s \<noteq> [] \<and> list_all is_digit s \<and> n = digits_value s)"
  by (cases v) (auto simp: py_int_def isdigit_def is_unicode_digit_def list_all_iff split: if_splits)

lemma coerce_Inr: "coerce v = Inr w \<Longrightarrow> w = PNone \<or> (\<exists>n. w = PInt n)"
  by (cases v) (auto simp: py_int_def split: if_splits)

lemma coerce_fields_three:
  assumes "coerce_fields [''season'', ''year'', ''imdb_id''] item = Inr item'"
  shows "coerce (dict_get item ''season'') = Inr (dict_get item' ''season'')
       \<and> coerce (dict_get item ''year'') = Inr (dict_get item' ''year'')
       \<and> coerce (dict_get item ''imdb_id'') = Inr (dict_get item' ''imdb_id'')
       \<and> (\<forall>k. k \<notin> {''season'', ''year'', ''imdb_id''} \<longrightarrow> dict_get item' k = dict_get item k)"
  using assms
  by (auto simp: dict_get_dict_set split: sum.splits)


lemma istartswith_split:
  assumes "istartswith s p"
  shows "\<exists>kw post. s = kw @ post \<and> lower kw = lower p"
proof -
  from assms have "prefix (lower p) (lower s)"
    by (simp add: istartswith_def startswith_prefix)
  then obtain zs where z: "lower s = lower p @ zs"
    by (auto simp: prefix_def)
  have "s = take (length p) s @ drop (length p) s" by simp
  moreover have "lower (take (length p) s) = lower p"
  proof -
    have "lower (take (length p) s) = take (length p) (lower s)"
      by (simp add: lower_def take_map)
    also have "\<dots> = lower p" unfolding z by (simp add: lower_def)
    finally show ?thesis .
  qed
  ultimately show ?thesis by blast
qed

lemma lower_keywords: "lower ''emporada'' = ''emporada''" "lower ''Season'' = ''season''"
  by code_simp+

lemma keyword_ahead_split:
  "keyword_ahead s \<Longrightarrow>
   \<exists>mid kw post. s = mid @ kw @ post \<and> (lower kw = ''emporada'' \<or> lower kw = ''season'')"
proof (induction s)
  case Nil
  then show ?case by simp
next
  case (Cons c cs)
  from Cons.prems consider
      (a) "istartswith (c # cs) ''emporada''"
    | (b) "istartswith (c # cs) ''Season''"
    | (c) "keyword_ahead cs"
    by auto
  then show ?case
  proof cases
    case a
    from istartswith_split [OF a] obtain kw post
      where "c # cs = kw @ post" "lower kw = ''emporada''"
      by (auto simp: lower_keywords)
    then have "c # cs = [] @ kw @ post \<and> (lower kw = ''emporada'' \<or> lower kw = ''season'')"
      by simp
    then show ?thesis by blast
  next
    case b
    from istartswith_split [OF b] obtain kw post
      where "c # cs = kw @ post" "lower kw = ''season''"
      by (auto simp: lower_keywords)
    then have "c # cs = [] @ kw @ post \<and> (lower kw = ''emporada'' \<or> lower kw = ''season'')"
      by simp
    then show ?thesis by blast
  next
    case c
    from Cons.IH [OF c] obtain mid kw post
      where "cs = mid @ kw @ post" "lower kw = ''emporada'' \<or> lower kw = ''season''"
      by blast
    then have "c # cs = (c # mid) @ kw @ post \<and> (lower kw = ''emporada'' \<or> lower kw = ''season'')"
      by simp
    then show ?thesis by blast
  qed
qed

lemma season_digits_split:
  assumes "season_digits s = Some g"
  shows "\<exists>mid kw post. s = g @ mid @ kw @ post \<and> g \<noteq> [] \<and> length g \<le> 2 \<and> list_all is_digit g
           \<and> (lower kw = ''emporada'' \<or> lower kw = ''season'')"
proof -
  from assms obtain d1 d2 rest where 1: "s = d1 # d2 # rest"
    by (cases s rule: season_digits.cases) simp_all
  show ?thesis
  proof (cases "is_digit d1 \<and> is_digit d2 \<and> keyword_ahead rest")
    case True
    with assms 1 have g: "g = [d1, d2]" by simp
    from True keyword_ahead_split obtain mid kw post
      where "rest = mid @ kw @ post" "lower kw = ''emporada'' \<or> lower kw = ''season''"
      by blast
    with 1 g True show ?thesis by auto
  next
    case False
    with assms 1 have g: "g = [d1]" and k: "keyword_ahead (d2 # rest)" and d: "is_digit d1"
      by (auto split: if_splits)
    from keyword_ahead_split [OF k] obtain mid kw post
      where "d2 # rest = mid @ kw @ post" "lower kw = ''emporada'' \<or> lower kw = ''season''"
      by blast
    with 1 g d show ?thesis by auto
  qed
qed

lemma season_re_match_split:
  "season_re_match s = Some g \<Longrightarrow>
   \<exists>pre mid kw post. s = pre @ '' - '' @ g @ mid @ kw @ post \<and> g \<noteq> [] \<and> length g \<le> 2
      \<and> list_all is_digit g \<and> (lower kw = ''emporada'' \<or> lower kw = ''season'')"
proof (induction s)
  case Nil
  then show ?case by simp
next
  case (Cons c cs)
  show ?case
  proof (cases "startswith (c # cs) '' - '' \<and> season_digits (drop 3 (c # cs)) = Some g")
    case True
    then have "startswith (c # cs) '' - ''" by blast
    then have p: "prefix '' - '' (c # cs)" by (simp only: startswith_prefix)
    then obtain zs where z: "c # cs = '' - '' @ zs" by (auto simp: prefix_def)
    then have "drop 3 (c # cs) = zs" by simp
    with True have "season_digits zs = Some g" by simp
    from season_digits_split [OF this] obtain mid kw post
      where "zs = g @ mid @ kw @ post" "g \<noteq> []" "length g \<le> 2" "list_all is_digit g"
        "lower kw = ''emporada'' \<or> lower kw = ''season''"
      by blast
    with z have "c # cs = [] @ '' - '' @ g @ mid @ kw @ post \<and> g \<noteq> [] \<and> length g \<le> 2
      \<and> list_all is_digit g \<and> (lower kw = ''emporada'' \<or> lower kw = ''season'')"
      by simp
    then show ?thesis by blast
  next
    case False
    with Cons.prems have "season_re_match cs = Some g"
      by (auto split: if_splits option.splits)
    from Cons.IH [OF this] obtain pre mid kw post
      where "cs = pre @ '' - '' @ g @ mid @ kw @ post" "g \<noteq> []" "length g \<le> 2"
        "list_all is_digit g" "lower kw = ''emporada'' \<or> lower kw = ''season''"
      by blast
    then have "c # cs = (c # pre) @ '' - '' @ g @ mid @ kw @ post \<and> g \<noteq> [] \<and> length g \<le> 2
      \<and> list_all is_digit g \<and> (lower kw = ''emporada'' \<or> lower kw = ''season'')"
      by simp
    then show ?thesis by blast
  qed
qed

lemma season_re_search_split:
  "season_re_search s = Some g \<Longrightarrow>
   \<exists>pre mid kw post. s = pre @ '' - '' @ g @ mid @ kw @ post \<and> g \<noteq> [] \<and> length g \<le> 2
      \<and> list_all is_digit g \<and> (lower kw = ''emporada'' \<or> lower kw = ''season'')"
proof (induction s)
  case Nil
  then show ?case by simp
next
  case (Cons c cs)
  show ?case
  proof (cases "season_re_match (c # cs)")
    case (Some g')
    with Cons.prems have "season_re_match (c # cs) = Some g" by simp
    then show ?thesis by (rule season_re_match_split)
  next
    case None
    with Cons.prems have "season_re_search cs = Some g" by simp
    from Cons.IH [OF this] obtain pre mid kw post
      where "cs = pre @ '' - '' @ g @ mid @ kw @ post" "g \<noteq> []" "length g \<le> 2"
        "list_all is_digit g" "lower kw = ''emporada'' \<or> lower kw = ''season''"
      by blast
    then have "c # cs = (c # pre) @ '' - '' @ g @ mid @ kw @ post \<and> g \<noteq> [] \<and> length g \<le> 2
      \<and> list_all is_digit g \<and> (lower kw = ''emporada'' \<or> lower kw = ''season'')"
      by simp
    then show ?thesis by blast
  qed
qed

lemma imdb_re_match_digits: "imdb_re_match s = Some g \<Longrightarrow> g \<noteq> [] \<and> list_all is_digit g"
  by (auto simp: imdb_re_match_def starts_digit_def list_all_iff
      split: if_splits list.splits dest: set_takeWhileD)

lemma imdb_re_search_digits: "imdb_re_search s = Some g \<Longrightarrow> g \<noteq> [] \<and> list_all is_digit g"
  by (induction s) (auto split: option.splits dest: imdb_re_match_digits)

lemma istartswith_keyword:
  "lower kw = lower p \<Longrightarrow> istartswith (kw @ post) p"
  by (simp add: istartswith_def startswith_prefix lower_def)

lemma keyword_ahead_complete:
  assumes "lower kw = ''emporada'' \<or> lower kw = ''season''"
  shows "newline \<notin> set mid \<Longrightarrow> keyword_ahead (mid @ kw @ post)"
proof (induction mid)
  case Nil
  from assms have "kw \<noteq> []" by (auto simp: lower_def)
  then obtain c cs where c: "kw @ post = c # cs" by (cases kw) auto
  from assms have "istartswith (kw @ post) ''emporada'' \<or> istartswith (kw @ post) ''Season''"
    by (auto simp: lower_keywords intro: istartswith_keyword)
  then show ?case unfolding append_Nil c by (simp only: keyword_ahead.simps) blast
next
  case (Cons c mid)
  then show ?case by auto
qed

lemma season_digits_complete:
  assumes "is_digit d" and "keyword_ahead rest"
  shows "\<exists>n. season_digits (d # rest) = Some n"
proof -
  from assms(2) obtain d2 rest' where r: "rest = d2 # rest'" by (cases rest) auto
  with assms show ?thesis by simp
qed

lemma season_re_match_Cons:
  "c \<noteq> newline \<Longrightarrow> season_re_match cs = Some n \<Longrightarrow> \<exists>m. season_re_match (c # cs) = Some m"
  by (simp split: option.splits)

lemma season_re_match_here:
  "season_digits s = Some n \<Longrightarrow> season_re_match ('' - '' @ s) = Some n"
  by simp

lemma season_re_match_complete:
  assumes "\<exists>n. season_digits s = Some n"
  shows "newline \<notin> set pre \<Longrightarrow> \<exists>n. season_re_match (pre @ '' - '' @ s) = Some n"
proof (induction pre)
  case Nil
  from assms obtain n where "season_digits s = Some n" by blast
  from season_re_match_here [OF this] show ?case
    unfolding append_Nil by blast
next
  case (Cons c pre)
  then obtain n where n: "season_re_match (pre @ '' - '' @ s) = Some n" and c: "c \<noteq> newline"
    by auto
  from season_re_match_Cons [OF c n] show ?case
    unfolding append_Cons .
qed

lemma season_re_search_of_match:
  "season_re_match s = Some n \<Longrightarrow> \<exists>m. season_re_search s = Some m"
  by (cases s) auto

lemma season_re_search_complete:
  assumes "is_digit d" and "newline \<notin> set pre" and "newline \<notin> set mid"
    and "lower kw = ''emporada'' \<or> lower kw = ''season''"
  shows "\<exists>n. season_re_search (pre @ '' - '' @ d # mid @ kw @ post) = Some n"
proof -
  from keyword_ahead_complete [OF assms(4) assms(3)] have "keyword_ahead (mid @ kw @ post)" .
  from season_digits_complete [OF assms(1) this]
  have "\<exists>n. season_digits (d # mid @ kw @ post) = Some n" .
  from season_re_match_complete [OF this assms(2)]
  obtain n where "season_re_match (pre @ '' - '' @ d # mid @ kw @ post) = Some n" by blast
  then show ?thesis by (rule season_re_search_of_match)
qed

lemma digit_not_keyword_head:
  assumes "lower kw = ''emporada'' \<or> lower kw = ''season''"
  shows "\<exists>k ks. kw = k # ks \<and> \<not> is_digit k"
proof -
  from assms obtain k ks where kw: "kw = k # ks" by (cases kw) (auto simp: lower_def)
  with assms have "lower_char k = CHR ''e'' \<or> lower_char k = CHR ''s''"
    by (auto simp: lower_def)
  then have "\<not> is_digit k"
    by (auto simp: lower_char_def is_digit_def is_upper_def split: if_splits)
  with kw show ?thesis by blast
qed

lemma season_digits_head:
  "season_digits t = Some g \<Longrightarrow> \<exists>d t'. t = d # t' \<and> is_digit d"
  by (cases t rule: season_digits.cases) (auto split: if_splits)

lemma season_digits_exact:
  assumes n: "n \<noteq> []" "length n \<le> 2" "list_all is_digit n"
    and mx: "length n = 1 \<longrightarrow> mid = [] \<or> \<not> is_digit (hd mid)"
    and nl: "newline \<notin> set mid"
    and kw: "lower kw = ''emporada'' \<or> lower kw = ''season''"
  shows "season_digits (n @ mid @ kw @ post) = Some n"
proof -
  from keyword_ahead_complete [OF kw nl] have ka: "keyword_ahead (mid @ kw @ post)" .
  from n consider (one) d1 where "n = [d1]" "is_digit d1"
    | (two) d1 d2 where "n = [d1, d2]" "is_digit d1" "is_digit d2"
  proof -
    assume a: "\<And>d1. n = [d1] \<Longrightarrow> is_digit d1 \<Longrightarrow> thesis"
      and b: "\<And>d1 d2. n = [d1, d2] \<Longrightarrow> is_digit d1 \<Longrightarrow> is_digit d2 \<Longrightarrow> thesis"
    from n(1) obtain d1 r where r: "n = d1 # r" by (cases n) auto
    show thesis
    proof (cases r)
      case Nil
      with r n(3) show thesis by (auto intro: a)
    next
      case (Cons d2 r')
      with r n(2) have "r' = []" by simp
      with Cons r n(3) show thesis by (auto intro: b)
    qed
  qed
  then show ?thesis
  proof cases
    case two
    with ka show ?thesis by simp
  next
    case one
    from digit_not_keyword_head [OF kw] obtain k ks where k: "kw = k # ks" "\<not> is_digit k"
      by blast
    from one mx have m: "mid = [] \<or> \<not> is_digit (hd mid)" by simp
    have "\<exists>d2 rest. mid @ kw @ post = d2 # rest \<and> \<not> is_digit d2"
    proof (cases mid)
      case Nil
      with k show ?thesis by simp
    next
      case (Cons a list)
      with m show ?thesis by simp
    qed
    then obtain d2 rest where r: "mid @ kw @ post = d2 # rest" "\<not> is_digit d2" by blast
    from ka have "keyword_ahead (d2 # rest)" unfolding r(1) .
    with one r(2) have "season_digits (d1 # d2 # rest) = Some [d1]" by simp
    with one r(1) show ?thesis by simp
  qed
qed

lemma season_re_match_skip:
  assumes h: "\<forall>a d b. (c # pre) @ '' - '' = a @ '' - '' @ d # b \<longrightarrow> \<not> is_digit d"
  shows "(if startswith (c # pre @ '' - '' @ s) '' - ''
          then season_digits (drop 3 (c # pre @ '' - '' @ s)) else None) = None"
proof (rule ccontr)
  assume "\<not> ?thesis"
  then obtain g where st: "startswith (c # pre @ '' - '' @ s) '' - ''"
    and sd: "season_digits (drop 3 (c # pre @ '' - '' @ s)) = Some g"
    by (auto split: if_splits)
  from st have "prefix '' - '' (c # pre @ '' - '' @ s)" by (simp only: startswith_prefix)
  then obtain t where t: "c # pre @ '' - '' @ s = '' - '' @ t" by (auto simp: prefix_def)
  then have "drop 3 (c # pre @ '' - '' @ s) = t" by simp
  with sd have "season_digits t = Some g" by simp
  from season_digits_head [OF this] obtain d t' where d: "t = d # t'" "is_digit d" by blast
  define y where "y = (c # pre) @ '' - ''"
  have len: "4 \<le> length y" by (simp add: y_def)
  have ys: "y @ s = '' - '' @ d # t'" using t d(1) by (simp add: y_def)
  have "take 4 y = take 4 (y @ s)" using len by simp
  also have "\<dots> = '' - '' @ [d]" unfolding ys by simp
  finally have "y = ('' - '' @ [d]) @ drop 4 y" by (metis append_take_drop_id)
  then have "(c # pre) @ '' - '' = [] @ '' - '' @ d # drop 4 y" by (simp add: y_def)
  with h d(2) show False by blast
qed

lemma season_re_match_exact:
  assumes sd: "season_digits s = Some n"
  shows "newline \<notin> set pre \<Longrightarrow>
         \<forall>a d b. pre @ '' - '' = a @ '' - '' @ d # b \<longrightarrow> \<not> is_digit d \<Longrightarrow>
         season_re_match (pre @ '' - '' @ s) = Some n"
proof (induction pre)
  case Nil
  from season_re_match_here [OF sd] show ?case by simp
next
  case (Cons c pre)
  have h': "\<forall>a d b. pre @ '' - '' = a @ '' - '' @ d # b \<longrightarrow> \<not> is_digit d"
  proof (intro allI impI)
    fix a d b assume "pre @ '' - '' = a @ '' - '' @ d # b"
    then have "(c # pre) @ '' - '' = (c # a) @ '' - '' @ d # b" by simp
    with Cons.prems(2) show "\<not> is_digit d" by blast
  qed
  from Cons.prems(1) have c: "c \<noteq> newline" and nl: "newline \<notin> set pre" by auto
  from Cons.IH [OF nl h'] have ih: "season_re_match (pre @ '' - '' @ s) = Some n" .
  have sk: "(if startswith (c # pre @ '' - '' @ s) '' - ''
          then season_digits (drop 3 (c # pre @ '' - '' @ s)) else None) = None"
    by (rule season_re_match_skip [OF Cons.prems(2)])
  have "season_re_match (c # pre @ '' - '' @ s) = Some n"
    unfolding season_re_match.simps sk using c ih by simp
  then show ?case by simp
qed

lemma season_re_search_exact:
  assumes "n \<noteq> []" "length n \<le> 2" "list_all is_digit n"
    and "length n = 1 \<longrightarrow> mid = [] \<or> \<not> is_digit (hd mid)"
    and "newline \<notin> set mid" and "newline \<notin> set pre"
    and "lower kw = ''emporada'' \<or> lower kw = ''season''"
    and "\<forall>a d b. pre @ '' - '' = a @ '' - '' @ d # b \<longrightarrow> \<not> is_digit d"
  shows "season_re_search (pre @ '' - '' @ n @ mid @ kw @ post) = Some n"
proof -
  from season_digits_exact [OF assms(1,2,3,4,5,7)]
  have "season_digits (n @ mid @ kw @ post) = Some n" .
  from season_re_match_exact [OF this assms(6) assms(8)]
  have m: "season_re_match (pre @ '' - '' @ n @ mid @ kw @ post) = Some n" .
  obtain c cs where x: "pre @ '' - '' @ n @ mid @ kw @ post = c # cs"
    by (cases "pre @ '' - '' @ n @ mid @ kw @ post") auto
  from m show ?thesis unfolding x by simp
qed

lemma no_earlier_digit:
  assumes "\<forall>c \<in> set (drop 3 pre). \<not> is_digit c"
  shows "\<forall>a d b. pre @ '' - '' = a @ '' - '' @ d # b \<longrightarrow> \<not> is_digit d"
proof (intro allI impI)
  fix a d b assume e: "pre @ '' - '' = a @ '' - '' @ d # b"
  have "drop 3 ((a @ '' - '') @ d # b) = drop 3 (a @ '' - '') @ d # b"
    by (simp only: drop_append) simp
  then have "d \<in> set (drop 3 (a @ '' - '' @ d # b))" by simp
  then have "d \<in> set (drop 3 (pre @ '' - ''))" by (simp only: e)
  then have "d \<in> set (drop 3 pre) \<or> d \<in> set '' - ''"
    by (auto simp: drop_append dest: in_set_dropD)
  with assms show "\<not> is_digit d" by (auto simp: is_digit_def)
qed

lemma digits_value_short:
  "digits_value [d1] = int (of_char d1) - 48"
  "digits_value [d1, d2] = 10 * (int (of_char d1) - 48) + (int (of_char d2) - 48)"
  by (simp_all add: digits_value_def)

subsection \<open>Candidate normalisation\<close>

lemma project_Inr: "project e = Inr item0 \<Longrightarrow> \<exists>entry. e = PDict entry \<and> item0 = map (\<lambda>(k, v). (k, dict_get entry v)) mapping"
  by (cases e) auto

lemma dict_get_project:
  "dict_get (map (\<lambda>(k, v). (k, dict_get entry v)) mapping) ''type'' = dict_get entry ''tipo''"
  "dict_get (map (\<lambda>(k, v). (k, dict_get entry v)) mapping) ''season'' = dict_get entry ''temporada''"
  "dict_get (map (\<lambda>(k, v). (k, dict_get entry v)) mapping) ''year'' = dict_get entry ''dsc_data_lancamento''"
  "dict_get (map (\<lambda>(k, v). (k, dict_get entry v)) mapping) ''title_br'' = dict_get entry ''dsc_nome_br''"
  "dict_get (map (\<lambda>(k, v). (k, dict_get entry v)) mapping) ''imdb_id'' = dict_get entry ''id_imdb''"
  by (simp_all add: mapping_def dict_get_def)

lemma type_map_get_Inr:
  "type_map_get v = Inr t \<Longrightarrow>
   t = (if v = PStr ''S'' \<or> v = PStr ''C'' then ''episode'' else ''movie'')"
  by (cases v) (auto simp: type_map_def split: if_splits)

lemma recover_season_Inr:
  assumes "recover_season item = Inr item'"
  shows "(\<forall>k. k \<noteq> ''season'' \<longrightarrow> dict_get item' k = dict_get item k)
       \<and> (if \<not> truthy (dict_get item ''season'') \<and> truthy (dict_get item ''title_br'')
          then re_search_group season_re_search (dict_get item ''title_br'')
                 = Inr (dict_get item' ''season'')
          else dict_get item' ''season'' = dict_get item ''season'')"
  using assms
  by (auto simp: recover_season_def and_then_Inr dict_get_dict_set split: if_splits)

lemma normalize_fields:
  assumes "normalize result = Inr item"
  shows "\<exists>entry imdb st.
           subscript result ''_source'' = Inr (PDict entry)
         \<and> dict_get item ''type''
             = PStr (if dict_get entry ''tipo'' = PStr ''S'' \<or> dict_get entry ''tipo'' = PStr ''C''
                     then ''episode'' else ''movie'')
         \<and> coerce (dict_get entry ''dsc_data_lancamento'') = Inr (dict_get item ''year'')
         \<and> re_search_group imdb_re_search (dict_get entry ''id_imdb'') = Inr imdb
         \<and> coerce imdb = Inr (dict_get item ''imdb_id'')
         \<and> (if \<not> truthy (dict_get entry ''temporada'') \<and> truthy (dict_get entry ''dsc_nome_br'')
            then re_search_group season_re_search (dict_get entry ''dsc_nome_br'') = Inr st
            else st = dict_get entry ''temporada'')
         \<and> coerce st = Inr (dict_get item ''season'')"
proof -
  from assms obtain e item0 t imdb item3 where
    1: "subscript result ''_source'' = Inr e" and
    2: "project e = Inr item0" and
    3: "type_map_get (dict_get item0 ''type'') = Inr t" and
    4: "re_search_group imdb_re_search (dict_get (dict_set item0 ''type'' (PStr t)) ''imdb_id'')
          = Inr imdb" and
    5: "recover_season (dict_set (dict_set item0 ''type'' (PStr t)) ''imdb_id'' imdb) = Inr item3" and
    6: "coerce_fields [''season'', ''year'', ''imdb_id''] item3 = Inr item"
    unfolding normalize_def and_then_Inr by blast
  from project_Inr [OF 2] obtain entry where
    e: "e = PDict entry" and i0: "item0 = map (\<lambda>(k, v). (k, dict_get entry v)) mapping"
    by blast
  note c = coerce_fields_three [OF 6]
  note r = recover_season_Inr [OF 5]
  from 3 have t: "t = (if dict_get entry ''tipo'' = PStr ''S'' \<or> dict_get entry ''tipo'' = PStr ''C''
                     then ''episode'' else ''movie'')"
    unfolding i0 dict_get_project by (rule type_map_get_Inr)
  have ty: "dict_get item ''type'' = PStr t"
    using c r by (simp add: dict_get_dict_set)
  have yr: "coerce (dict_get entry ''dsc_data_lancamento'') = Inr (dict_get item ''year'')"
    using c r by (simp add: dict_get_dict_set i0 dict_get_project)
  have im: "re_search_group imdb_re_search (dict_get entry ''id_imdb'') = Inr imdb"
    using 4 by (simp add: dict_get_dict_set i0 dict_get_project)
  have ci: "coerce imdb = Inr (dict_get item ''imdb_id'')"
    using c r by (simp add: dict_get_dict_set)
  have se: "(if \<not> truthy (dict_get entry ''temporada'') \<and> truthy (dict_get entry ''dsc_nome_br'')
            then re_search_group season_re_search (dict_get entry ''dsc_nome_br'')
                   = Inr (dict_get item3 ''season'')
            else dict_get item3 ''season'' = dict_get entry ''temporada'')"
  proof -
    have g1: "dict_get (dict_set (dict_set item0 ''type'' (PStr t)) ''imdb_id'' imdb) ''season''
                = dict_get entry ''temporada''"
      by (simp add: dict_get_dict_set i0 dict_get_project)
    have g2: "dict_get (dict_set (dict_set item0 ''type'' (PStr t)) ''imdb_id'' imdb) ''title_br''
                = dict_get entry ''dsc_nome_br''"
      by (simp add: dict_get_dict_set i0 dict_get_project)
    from r show ?thesis unfolding g1 g2 by blast
  qed
  have cs: "coerce (dict_get item3 ''season'') = Inr (dict_get item ''season'')"
    using c by simp
  from 1 e ty t yr im ci se cs show ?thesis by blast
qed

lemma candidates_loop_sound:
  "candidates_loop eq t s e y results acc = Inr cs \<Longrightarrow> c \<in> set cs \<Longrightarrow>
   c \<in> set acc \<or> (\<exists>r \<in> set results. normalize r = Inr c \<and> matches eq c t s e y True)"
proof (induction results arbitrary: acc)
  case Nil
  then show ?case by simp
next
  case (Cons r rs)
  from Cons.prems(1) obtain item where n: "normalize r = Inr item"
    and l: "candidates_loop eq t s e y rs
              (if matches eq item t s e y True then acc @ [item] else acc) = Inr cs"
    by (auto split: sum.splits)
  from Cons.IH [OF l Cons.prems(2)] n show ?case
    by (auto split: if_splits)
qed

lemma candidates_loop_append:
  "\<forall>p \<in> set before. \<exists>item. normalize p = Inr item \<Longrightarrow>
   \<exists>acc'. candidates_loop eq t s e y (before @ rest) acc = candidates_loop eq t s e y rest acc'"
proof (induction before arbitrary: acc)
  case Nil
  then show ?case by auto
next
  case (Cons p ps)
  then obtain item where "normalize p = Inr item" by auto
  with Cons show ?case by simp
qed

lemma normalize_missing_source:
  "map_of d ''_source'' = None \<Longrightarrow> normalize (PDict d) = Inl KeyError"
  by (simp add: normalize_def)

text \<open>
  C4, as stated: a raw hit without the key \<^verbatim>\<open>_source\<close>, or with a null
  \<^verbatim>\<open>id_imdb\<close>, is skipped and the other hits of the batch still become candidates.
  The loop has no handler: \<^verbatim>\<open>result['_source']\<close> raises \<^verbatim>\<open>KeyError\<close> and
  \<^verbatim>\<open>imdb_re.search(None)\<close> raises \<^verbatim>\<open>TypeError\<close>, and the call ends there, although the
  second hit alone gives a candidate.
\<close>

theorem search_candidates_malformed_counterexample:
  "search_candidates sanitized_string_equal
     [PDict [(''_index'', PStr ''filmes'')], breaking_bad_hit]
     ''Breaking Bad'' (Some 4) (Some 1) None = Inl KeyError
   \<and> search_candidates sanitized_string_equal
     [PDict [(''_source'', PDict [(''dsc_nome'', PStr ''Breaking Bad''), (''id_imdb'', PNone)])],
      breaking_bad_hit]
     ''Breaking Bad'' (Some 4) (Some 1) None = Inl TypeError
   \<and> search_candidates sanitized_string_equal [breaking_bad_hit]
     ''Breaking Bad'' (Some 4) (Some 1) None
     = Inr [[(''id'', PStr ''24551''), (''type'', PStr ''episode''),
           (''title'', PStr ''Breaking Bad''), (''series'', PStr ''Breaking Bad''),
           (''season'', PInt 4), (''year'', PInt 2011),
           (''title_br'', PStr (''Breaking Bad - 4'' @ [CHR 0xAA] @ '' Temporada'')),
           (''imdb_id'', PInt 903747)]]"
  by code_simp

text \<open>
  C4, amended. A hit without the key \<^verbatim>\<open>_source\<close> is not skipped: when the hits before
  it are processed without error, the call ends with \<^verbatim>\<open>KeyError\<close> whatever follows,
  and no candidate is returned.
\<close>

theorem search_candidates_missing_source_aborts:
  assumes "\<forall>p \<in> set before. \<exists>item. normalize p = Inr item"
    and "map_of d ''_source'' = None"
  shows "search_candidates eq (before @ PDict d # after) title season episode year = Inl KeyError"
proof -
  from candidates_loop_append [OF assms(1)] obtain acc' where
    "candidates_loop eq title season episode year (before @ PDict d # after) []
       = candidates_loop eq title season episode year (PDict d # after) acc'"
    by blast
  then show ?thesis
    by (simp add: search_candidates_def normalize_missing_source [OF assms(2)])
qed

theorem search_candidates_missing_source_aborts_witness:
  "search_candidates sanitized_string_equal
     ([breaking_bad_hit] @ PDict [(''_index'', PStr ''filmes'')] # [breaking_bad_hit])
     ''Breaking Bad'' (Some 4) (Some 1) None = Inl KeyError"
proof -
  have n: "\<forall>p \<in> set [breaking_bad_hit]. \<exists>item. normalize p = Inr item"
  proof -
    have "normalize breaking_bad_hit
      = Inr [(''id'', PStr ''24551''), (''type'', PStr ''episode''),
           (''title'', PStr ''Breaking Bad''), (''series'', PStr ''Breaking Bad''),
           (''season'', PInt 4), (''year'', PInt 2011),
           (''title_br'', PStr (''Breaking Bad - 4'' @ [CHR 0xAA] @ '' Temporada'')),
           (''imdb_id'', PInt 903747)]"
      by code_simp
    then show ?thesis by simp
  qed
  have m: "map_of [(''_index'', PStr ''filmes'')] ''_source'' = None" by simp
  show ?thesis by (rule search_candidates_missing_source_aborts [OF n m])
qed

text \<open>
  C7. Every candidate returned by \<^verbatim>\<open>search_candidates\<close> has the type
  \<^verbatim>\<open>'movie'\<close> or \<^verbatim>\<open>'episode'\<close>, and each of its season, year and imdb_id is
  \<^verbatim>\<open>None\<close> or an integer that is not negative. It comes from a raw hit whose type code
  \<^verbatim>\<open>S\<close> or \<^verbatim>\<open>C\<close> gives \<^verbatim>\<open>'episode'\<close> and any other code \<^verbatim>\<open>'movie'\<close>, and an
  integer field is the value of a nonempty string of digits: the raw year, the digits the
  imdb pattern finds, the raw season or the digits the season pattern finds.
\<close>

theorem candidate_fields_invariant:
  assumes "search_candidates eq results title season episode year = Inr candidates"
    and "c \<in> set candidates"
  shows "(dict_get c ''type'' = PStr ''movie'' \<or> dict_get c ''type'' = PStr ''episode'')
       \<and> (\<forall>field \<in> {''season'', ''year'', ''imdb_id''}.
             dict_get c field = PNone \<or> (\<exists>n. 0 \<le> n \<and> dict_get c field = PInt n))
       \<and> (\<exists>result \<in> set results. \<exists>entry.
             subscript result ''_source'' = Inr (PDict entry)
           \<and> dict_get c ''type''
               = PStr (if dict_get entry ''tipo'' = PStr ''S'' \<or> dict_get entry ''tipo'' = PStr ''C''
                       then ''episode'' else ''movie'')
           \<and> (\<forall>n. dict_get c ''year'' = PInt n \<longrightarrow>
                 (\<exists>s. dict_get entry ''dsc_data_lancamento'' = PStr s \<and> s \<noteq> []
                      \<and> list_all is_digit s \<and> n = digits_value s))
           \<and> (\<forall>n. dict_get c ''imdb_id'' = PInt n \<longrightarrow>
                 (\<exists>raw s. dict_get entry ''id_imdb'' = PStr raw \<and> imdb_re_search raw = Some s
                      \<and> list_all is_digit s \<and> n = digits_value s))
           \<and> (\<forall>n. dict_get c ''season'' = PInt n \<longrightarrow>
                 (\<exists>s. s \<noteq> [] \<and> list_all is_digit s \<and> n = digits_value s
                      \<and> (dict_get entry ''temporada'' = PStr s
                          \<or> (\<not> truthy (dict_get entry ''temporada'')
                              \<and> (\<exists>title_br. dict_get entry ''dsc_nome_br'' = PStr title_br
                                    \<and> season_re_search title_br = Some s))))))"
proof -
  from candidates_loop_sound [OF assms(1) [unfolded search_candidates_def] assms(2)]
  obtain r where r: "r \<in> set results" and n: "normalize r = Inr c"
    by auto
  from normalize_fields [OF n] obtain entry imdb st where
    src: "subscript r ''_source'' = Inr (PDict entry)" and
    ty: "dict_get c ''type''
             = PStr (if dict_get entry ''tipo'' = PStr ''S'' \<or> dict_get entry ''tipo'' = PStr ''C''
                     then ''episode'' else ''movie'')" and
    yr: "coerce (dict_get entry ''dsc_data_lancamento'') = Inr (dict_get c ''year'')" and
    im: "re_search_group imdb_re_search (dict_get entry ''id_imdb'') = Inr imdb" and
    ci: "coerce imdb = Inr (dict_get c ''imdb_id'')" and
    se: "if \<not> truthy (dict_get entry ''temporada'') \<and> truthy (dict_get entry ''dsc_nome_br'')
            then re_search_group season_re_search (dict_get entry ''dsc_nome_br'') = Inr st
            else st = dict_get entry ''temporada''" and
    cs: "coerce st = Inr (dict_get c ''season'')"
    by blast
  have num: "w = PNone \<or> (\<exists>n. 0 \<le> n \<and> w = PInt n)" if "coerce v = Inr w" for v w
  proof -
    from coerce_Inr [OF that] show ?thesis
    proof
      assume "w = PNone" then show ?thesis by simp
    next
      assume "\<exists>n. w = PInt n"
      then obtain n where w: "w = PInt n" by blast
      with that have "coerce v = Inr (PInt n)" by simp
      then obtain s where "list_all is_digit s" "n = digits_value s"
        unfolding coerce_PInt by blast
      then have "0 \<le> n" by (simp add: digits_value_nonneg)
      with w show ?thesis by blast
    qed
  qed
  have a: "dict_get c ''type'' = PStr ''movie'' \<or> dict_get c ''type'' = PStr ''episode''"
    using ty by simp
  have b: "\<forall>field \<in> {''season'', ''year'', ''imdb_id''}.
             dict_get c field = PNone \<or> (\<exists>n. 0 \<le> n \<and> dict_get c field = PInt n)"
    using num [OF yr] num [OF ci] num [OF cs] by simp
  have y: "\<forall>n. dict_get c ''year'' = PInt n \<longrightarrow>
                 (\<exists>s. dict_get entry ''dsc_data_lancamento'' = PStr s \<and> s \<noteq> []
                      \<and> list_all is_digit s \<and> n = digits_value s)"
    using yr by (auto simp: coerce_PInt)
  have i: "\<forall>n. dict_get c ''imdb_id'' = PInt n \<longrightarrow>
                 (\<exists>raw s. dict_get entry ''id_imdb'' = PStr raw \<and> imdb_re_search raw = Some s
                      \<and> list_all is_digit s \<and> n = digits_value s)"
  proof (intro allI impI)
    fix n assume "dict_get c ''imdb_id'' = PInt n"
    with ci obtain s where s: "imdb = PStr s" "list_all is_digit s" "n = digits_value s"
      by (auto simp: coerce_PInt)
    from im s(1) obtain raw where "dict_get entry ''id_imdb'' = PStr raw" "imdb_re_search raw = Some s"
      by (cases "dict_get entry ''id_imdb''") (auto split: option.splits)
    with s show "\<exists>raw s. dict_get entry ''id_imdb'' = PStr raw \<and> imdb_re_search raw = Some s
                      \<and> list_all is_digit s \<and> n = digits_value s"
      by blast
  qed
  have s: "\<forall>n. dict_get c ''season'' = PInt n \<longrightarrow>
                 (\<exists>s. s \<noteq> [] \<and> list_all is_digit s \<and> n = digits_value s
                      \<and> (dict_get entry ''temporada'' = PStr s
                          \<or> (\<not> truthy (dict_get entry ''temporada'')
                              \<and> (\<exists>title_br. dict_get entry ''dsc_nome_br'' = PStr title_br
                                    \<and> season_re_search title_br = Some s))))"
  proof (intro allI impI)
    fix n assume "dict_get c ''season'' = PInt n"
    with cs obtain s where s: "st = PStr s" "s \<noteq> []" "list_all is_digit s" "n = digits_value s"
      by (auto simp: coerce_PInt)
    show "\<exists>s. s \<noteq> [] \<and> list_all is_digit s \<and> n = digits_value s
                      \<and> (dict_get entry ''temporada'' = PStr s
                          \<or> (\<not> truthy (dict_get entry ''temporada'')
                              \<and> (\<exists>title_br. dict_get entry ''dsc_nome_br'' = PStr title_br
                                    \<and> season_re_search title_br = Some s)))"
    proof (cases "\<not> truthy (dict_get entry ''temporada'') \<and> truthy (dict_get entry ''dsc_nome_br'')")
      case True
      with se have "re_search_group season_re_search (dict_get entry ''dsc_nome_br'') = Inr (PStr s)"
        using s(1) by simp
      then obtain tb where "dict_get entry ''dsc_nome_br'' = PStr tb" "season_re_search tb = Some s"
        by (cases "dict_get entry ''dsc_nome_br''") (auto split: option.splits)
      with True s show ?thesis by blast
    next
      case False
      with se s(1) have "dict_get entry ''temporada'' = PStr s" by simp
      with s show ?thesis by blast
    qed
  qed
  from r src ty a b y i s show ?thesis by blast
qed

theorem candidate_fields_invariant_witness:
  "search_candidates sanitized_string_equal [breaking_bad_hit]
     ''Breaking Bad'' (Some 4) (Some 1) None
   = Inr [[(''id'', PStr ''24551''), (''type'', PStr ''episode''),
             (''title'', PStr ''Breaking Bad''), (''series'', PStr ''Breaking Bad''),
             (''season'', PInt 4), (''year'', PInt 2011),
             (''title_br'', PStr (''Breaking Bad - 4'' @ [CHR 0xAA] @ '' Temporada'')),
             (''imdb_id'', PInt 903747)]]
   \<and> (dict_get [(''id'', PStr ''24551''), (''type'', PStr ''episode''),
             (''title'', PStr ''Breaking Bad''), (''series'', PStr ''Breaking Bad''),
             (''season'', PInt 4), (''year'', PInt 2011),
             (''title_br'', PStr (''Breaking Bad - 4'' @ [CHR 0xAA] @ '' Temporada'')),
             (''imdb_id'', PInt 903747)] ''type'' = PStr ''movie''
      \<or> dict_get [(''id'', PStr ''24551''), (''type'', PStr ''episode''),
             (''title'', PStr ''Breaking Bad''), (''series'', PStr ''Breaking Bad''),
             (''season'', PInt 4), (''year'', PInt 2011),
             (''title_br'', PStr (''Breaking Bad - 4'' @ [CHR 0xAA] @ '' Temporada'')),
             (''imdb_id'', PInt 903747)] ''type'' = PStr ''episode'')"
proof -
  have s: "search_candidates sanitized_string_equal [breaking_bad_hit]
            ''Breaking Bad'' (Some 4) (Some 1) None
          = Inr [[(''id'', PStr ''24551''), (''type'', PStr ''episode''),
                  (''title'', PStr ''Breaking Bad''), (''series'', PStr ''Breaking Bad''),
                  (''season'', PInt 4), (''year'', PInt 2011),
                  (''title_br'', PStr (''Breaking Bad - 4'' @ [CHR 0xAA] @ '' Temporada'')),
                  (''imdb_id'', PInt 903747)]]"
    by code_simp
  have m: "[(''id'', PStr ''24551''), (''type'', PStr ''episode''),
                  (''title'', PStr ''Breaking Bad''), (''series'', PStr ''Breaking Bad''),
                  (''season'', PInt 4), (''year'', PInt 2011),
                  (''title_br'', PStr (''Breaking Bad - 4'' @ [CHR 0xAA] @ '' Temporada'')),
                  (''imdb_id'', PInt 903747)]
           \<in> set [[(''id'', PStr ''24551''), (''type'', PStr ''episode''),
                  (''title'', PStr ''Breaking Bad''), (''series'', PStr ''Breaking Bad''),
                  (''season'', PInt 4), (''year'', PInt 2011),
                  (''title_br'', PStr (''Breaking Bad - 4'' @ [CHR 0xAA] @ '' Temporada'')),
                  (''imdb_id'', PInt 903747)]]"
    by simp
  from candidate_fields_invariant [OF s m] s show ?thesis by blast
qed

text \<open>
  C8. When the raw season of a hit is missing or empty and its \<^verbatim>\<open>dsc_nome_br\<close> is a
  nonempty string, the season of the normalised item is what \<^verbatim>\<open>season_re\<close> finds in
  that title: \<^verbatim>\<open>None\<close> when there is no match, else the number of group 1. A match
  means that the title reads \<^verbatim>\<open>... - N...keyword...\<close> with \<open>N\<close> one or two digits and
  the keyword \<^verbatim>\<open>emporada\<close> or \<^verbatim>\<open>Season\<close> in any case, and every title of that form
  on one line has a match. Which \<open>N\<close> is taken: when the title reads that way on one line,
  \<open>N\<close> is the whole run of digits or its first two, and no \<^verbatim>\<open>" - "\<close> followed by a digit
  occurs before it, the season is the decimal value of \<open>N\<close>. The hit \<open>breaking_bad_hit\<close>,
  whose title is \<^verbatim>\<open>Breaking Bad - 4\<close>, the ordinal indicator and \<^verbatim>\<open> Temporada\<close> and which
  has no season, gives one candidate, with season 4; the title \<^verbatim>\<open>Show - 12th Season\<close>
  gives season 12.
\<close>

theorem season_recovered_from_title_br:
  assumes "subscript result ''_source'' = Inr (PDict entry)"
    and "\<not> truthy (dict_get entry ''temporada'')"
    and "dict_get entry ''dsc_nome_br'' = PStr title_br" and "title_br \<noteq> []"
    and "normalize result = Inr item"
  shows "(dict_get item ''season''
           = (case season_re_search title_br of None \<Rightarrow> PNone | Some n \<Rightarrow> PInt (digits_value n)))
       \<and> (\<forall>n. season_re_search title_br = Some n \<longrightarrow>
             (\<exists>pre mid kw post. title_br = pre @ '' - '' @ n @ mid @ kw @ post
                \<and> n \<noteq> [] \<and> length n \<le> 2 \<and> list_all is_digit n
                \<and> (lower kw = ''emporada'' \<or> lower kw = ''season'')))
       \<and> (\<forall>pre d mid kw post. title_br = pre @ '' - '' @ d # mid @ kw @ post
              \<and> is_digit d \<and> newline \<notin> set pre \<and> newline \<notin> set mid
              \<and> (lower kw = ''emporada'' \<or> lower kw = ''season'')
            \<longrightarrow> (\<exists>n. season_re_search title_br = Some n))
       \<and> (\<forall>pre n mid kw post. title_br = pre @ '' - '' @ n @ mid @ kw @ post
              \<and> n \<noteq> [] \<and> length n \<le> 2 \<and> list_all is_digit n
              \<and> (length n = 1 \<longrightarrow> mid = [] \<or> \<not> is_digit (hd mid))
              \<and> newline \<notin> set pre \<and> newline \<notin> set mid
              \<and> (lower kw = ''emporada'' \<or> lower kw = ''season'')
              \<and> (\<forall>a d b. pre @ '' - '' = a @ '' - '' @ d # b \<longrightarrow> \<not> is_digit d)
            \<longrightarrow> dict_get item ''season'' = PInt (digits_value n))
       \<and> (\<forall>d1 d2. digits_value [d1] = int (of_char d1) - 48
              \<and> digits_value [d1, d2] = 10 * (int (of_char d1) - 48) + (int (of_char d2) - 48))
       \<and> (search_candidates sanitized_string_equal [breaking_bad_hit]
            ''Breaking Bad'' (Some 4) (Some 1) None
          = Inr [[(''id'', PStr ''24551''), (''type'', PStr ''episode''),
                  (''title'', PStr ''Breaking Bad''), (''series'', PStr ''Breaking Bad''),
                  (''season'', PInt 4), (''year'', PInt 2011),
                  (''title_br'', PStr (''Breaking Bad - 4'' @ [CHR 0xAA] @ '' Temporada'')),
                  (''imdb_id'', PInt 903747)]])
       \<and> (normalize (PDict [(''_source'', PDict [(''id_imdb'', PStr ''tt0944947''), (''tipo'', PStr ''S''),
            (''dsc_nome'', PStr ''Show''), (''dsc_nome_br'', PStr ''Show - 12th Season'')])])
          = Inr [(''id'', PNone), (''type'', PStr ''episode''), (''title'', PStr ''Show''),
            (''series'', PStr ''Show''), (''season'', PInt 12), (''year'', PNone),
            (''title_br'', PStr ''Show - 12th Season''), (''imdb_id'', PInt 944947)])"
proof (intro conjI)
  from normalize_fields [OF assms(5)] obtain entry' imdb st where
    src: "subscript result ''_source'' = Inr (PDict entry')" and
    se: "if \<not> truthy (dict_get entry' ''temporada'') \<and> truthy (dict_get entry' ''dsc_nome_br'')
            then re_search_group season_re_search (dict_get entry' ''dsc_nome_br'') = Inr st
            else st = dict_get entry' ''temporada''" and
    cs: "coerce st = Inr (dict_get item ''season'')"
    by blast
  from src assms(1) have e: "entry' = entry" by simp
  have t: "truthy (dict_get entry ''dsc_nome_br'')"
    unfolding assms(3) using assms(4) by simp
  from se have "re_search_group season_re_search (dict_get entry ''dsc_nome_br'') = Inr st"
    unfolding e using assms(2) t by simp
  then have st: "st = (case season_re_search title_br of None \<Rightarrow> PNone | Some g \<Rightarrow> PStr g)"
    unfolding assms(3) by simp
  show season: "dict_get item ''season''
           = (case season_re_search title_br of None \<Rightarrow> PNone | Some n \<Rightarrow> PInt (digits_value n))"
  proof (cases "season_re_search title_br")
    case None
    with st cs show ?thesis by simp
  next
    case (Some g)
    from season_re_search_split [OF Some] have "g \<noteq> []" "list_all is_digit g" by auto
    then have "coerce (PStr g) = Inr (PInt (digits_value g))"
      unfolding coerce_PInt by blast
    with st cs Some show ?thesis by simp
  qed
  show "\<forall>n. season_re_search title_br = Some n \<longrightarrow>
             (\<exists>pre mid kw post. title_br = pre @ '' - '' @ n @ mid @ kw @ post
                \<and> n \<noteq> [] \<and> length n \<le> 2 \<and> list_all is_digit n
                \<and> (lower kw = ''emporada'' \<or> lower kw = ''season''))"
    by (intro allI impI) (rule season_re_search_split)
  show "\<forall>pre d mid kw post. title_br = pre @ '' - '' @ d # mid @ kw @ post
              \<and> is_digit d \<and> newline \<notin> set pre \<and> newline \<notin> set mid
              \<and> (lower kw = ''emporada'' \<or> lower kw = ''season'')
            \<longrightarrow> (\<exists>n. season_re_search title_br = Some n)"
  proof (intro allI impI)
    fix pre d mid kw post
    assume a: "title_br = pre @ '' - '' @ d # mid @ kw @ post
              \<and> is_digit d \<and> newline \<notin> set pre \<and> newline \<notin> set mid
              \<and> (lower kw = ''emporada'' \<or> lower kw = ''season'')"
    then have d: "is_digit d" and p: "newline \<notin> set pre" and m: "newline \<notin> set mid"
      and k: "lower kw = ''emporada'' \<or> lower kw = ''season''"
      and tb: "title_br = pre @ '' - '' @ d # mid @ kw @ post"
      by blast+
    from season_re_search_complete [OF d p m k, of post]
    show "\<exists>n. season_re_search title_br = Some n"
      unfolding tb .
  qed
  show "\<forall>pre n mid kw post. title_br = pre @ '' - '' @ n @ mid @ kw @ post
              \<and> n \<noteq> [] \<and> length n \<le> 2 \<and> list_all is_digit n
              \<and> (length n = 1 \<longrightarrow> mid = [] \<or> \<not> is_digit (hd mid))
              \<and> newline \<notin> set pre \<and> newline \<notin> set mid
              \<and> (lower kw = ''emporada'' \<or> lower kw = ''season'')
              \<and> (\<forall>a d b. pre @ '' - '' = a @ '' - '' @ d # b \<longrightarrow> \<not> is_digit d)
            \<longrightarrow> dict_get item ''season'' = PInt (digits_value n)"
  proof (intro allI impI)
    fix pre n mid kw post
    assume a: "title_br = pre @ '' - '' @ n @ mid @ kw @ post
              \<and> n \<noteq> [] \<and> length n \<le> 2 \<and> list_all is_digit n
              \<and> (length n = 1 \<longrightarrow> mid = [] \<or> \<not> is_digit (hd mid))
              \<and> newline \<notin> set pre \<and> newline \<notin> set mid
              \<and> (lower kw = ''emporada'' \<or> lower kw = ''season'')
              \<and> (\<forall>a d b. pre @ '' - '' = a @ '' - '' @ d # b \<longrightarrow> \<not> is_digit d)"
    then have tb: "title_br = pre @ '' - '' @ n @ mid @ kw @ post"
      and n1: "n \<noteq> []" and n2: "length n \<le> 2" and n3: "list_all is_digit n"
      and mx: "length n = 1 \<longrightarrow> mid = [] \<or> \<not> is_digit (hd mid)"
      and p: "newline \<notin> set pre" and m: "newline \<notin> set mid"
      and k: "lower kw = ''emporada'' \<or> lower kw = ''season''"
      and h: "\<forall>a d b. pre @ '' - '' = a @ '' - '' @ d # b \<longrightarrow> \<not> is_digit d"
      by blast+
    from season_re_search_exact [OF n1 n2 n3 mx m p k h, of post]
    have "season_re_search title_br = Some n" unfolding tb .
    with season show "dict_get item ''season'' = PInt (digits_value n)" by simp
  qed
  show "\<forall>d1 d2. digits_value [d1] = int (of_char d1) - 48
              \<and> digits_value [d1, d2] = 10 * (int (of_char d1) - 48) + (int (of_char d2) - 48)"
    by (intro allI) (simp only: digits_value_short simp_thms)
  show "search_candidates sanitized_string_equal [breaking_bad_hit]
            ''Breaking Bad'' (Some 4) (Some 1) None
          = Inr [[(''id'', PStr ''24551''), (''type'', PStr ''episode''),
                  (''title'', PStr ''Breaking Bad''), (''series'', PStr ''Breaking Bad''),
                  (''season'', PInt 4), (''year'', PInt 2011),
                  (''title_br'', PStr (''Breaking Bad - 4'' @ [CHR 0xAA] @ '' Temporada'')),
                  (''imdb_id'', PInt 903747)]]"
    by code_simp
  show "normalize (PDict [(''_source'', PDict [(''id_imdb'', PStr ''tt0944947''), (''tipo'', PStr ''S''),
            (''dsc_nome'', PStr ''Show''), (''dsc_nome_br'', PStr ''Show - 12th Season'')])])
          = Inr [(''id'', PNone), (''type'', PStr ''episode''), (''title'', PStr ''Show''),
            (''series'', PStr ''Show''), (''season'', PInt 12), (''year'', PNone),
            (''title_br'', PStr ''Show - 12th Season''), (''imdb_id'', PInt 944947)]"
    by code_simp
qed

theorem season_recovered_from_title_br_witness:
  "normalize (PDict [(''_source'', PDict [(''id_imdb'', PStr ''tt0944947''), (''tipo'', PStr ''S''),
            (''dsc_nome'', PStr ''Show''), (''dsc_nome_br'', PStr ''Show - 12th Season'')])])
     = Inr [(''id'', PNone), (''type'', PStr ''episode''), (''title'', PStr ''Show''),
            (''series'', PStr ''Show''), (''season'', PInt 12), (''year'', PNone),
            (''title_br'', PStr ''Show - 12th Season''), (''imdb_id'', PInt 944947)]
   \<and> dict_get [(''id'', PNone), (''type'', PStr ''episode''), (''title'', PStr ''Show''),
            (''series'', PStr ''Show''), (''season'', PInt 12), (''year'', PNone),
            (''title_br'', PStr ''Show - 12th Season''), (''imdb_id'', PInt 944947)] ''season'' = PInt (digits_value ''12'')
   \<and> digits_value ''12'' = 12"
proof -
  have 1: "subscript (PDict [(''_source'', PDict [(''id_imdb'', PStr ''tt0944947''), (''tipo'', PStr ''S''),
            (''dsc_nome'', PStr ''Show''), (''dsc_nome_br'', PStr ''Show - 12th Season'')])]) ''_source''
     = Inr (PDict [(''id_imdb'', PStr ''tt0944947''), (''tipo'', PStr ''S''),
            (''dsc_nome'', PStr ''Show''), (''dsc_nome_br'', PStr ''Show - 12th Season'')])"
    by simp
  have 2: "\<not> truthy (dict_get [(''id_imdb'', PStr ''tt0944947''), (''tipo'', PStr ''S''),
            (''dsc_nome'', PStr ''Show''), (''dsc_nome_br'', PStr ''Show - 12th Season'')] ''temporada'')"
    by (simp add: dict_get_def)
  have 3: "dict_get [(''id_imdb'', PStr ''tt0944947''), (''tipo'', PStr ''S''),
            (''dsc_nome'', PStr ''Show''), (''dsc_nome_br'', PStr ''Show - 12th Season'')] ''dsc_nome_br''
           = PStr ''Show - 12th Season''"
    by (simp add: dict_get_def)
  have 4: "''Show - 12th Season'' \<noteq> []" by simp
  have 5: "normalize (PDict [(''_source'', PDict [(''id_imdb'', PStr ''tt0944947''), (''tipo'', PStr ''S''),
            (''dsc_nome'', PStr ''Show''), (''dsc_nome_br'', PStr ''Show - 12th Season'')])])
      = Inr [(''id'', PNone), (''type'', PStr ''episode''), (''title'', PStr ''Show''),
            (''series'', PStr ''Show''), (''season'', PInt 12), (''year'', PNone),
            (''title_br'', PStr ''Show - 12th Season''), (''imdb_id'', PInt 944947)]"
    by code_simp
  have 6: "\<forall>a d b. ''Show'' @ '' - '' = a @ '' - '' @ d # b \<longrightarrow> \<not> is_digit d"
    by (rule no_earlier_digit) (simp add: is_digit_def)
  have 7: "''Show - 12th Season'' = ''Show'' @ '' - '' @ ''12'' @ ''th '' @ ''Season'' @ []
              \<and> ''12'' \<noteq> [] \<and> length ''12'' \<le> 2 \<and> list_all is_digit ''12''
              \<and> (length ''12'' = 1 \<longrightarrow> ''th '' = [] \<or> \<not> is_digit (hd ''th ''))
              \<and> newline \<notin> set ''Show'' \<and> newline \<notin> set ''th ''
              \<and> (lower ''Season'' = ''emporada'' \<or> lower ''Season'' = ''season'')
              \<and> (\<forall>a d b. ''Show'' @ '' - '' = a @ '' - '' @ d # b \<longrightarrow> \<not> is_digit d)"
  proof -
    have "''Show - 12th Season'' = ''Show'' @ '' - '' @ ''12'' @ ''th '' @ ''Season'' @ []
              \<and> ''12'' \<noteq> [] \<and> length ''12'' \<le> 2 \<and> list_all is_digit ''12''
              \<and> (length ''12'' = 1 \<longrightarrow> ''th '' = [] \<or> \<not> is_digit (hd ''th ''))
              \<and> newline \<notin> set ''Show'' \<and> newline \<notin> set ''th ''
              \<and> (lower ''Season'' = ''emporada'' \<or> lower ''Season'' = ''season'')"
      by (simp add: is_digit_def newline_def lower_keywords)
    with 6 show ?thesis by (intro conjI) (elim conjE, assumption)+
  qed
  from season_recovered_from_title_br [OF 1 2 3 4 5]
  have "\<forall>pre n mid kw post. ''Show - 12th Season'' = pre @ '' - '' @ n @ mid @ kw @ post
              \<and> n \<noteq> [] \<and> length n \<le> 2 \<and> list_all is_digit n
              \<and> (length n = 1 \<longrightarrow> mid = [] \<or> \<not> is_digit (hd mid))
              \<and> newline \<notin> set pre \<and> newline \<notin> set mid
              \<and> (lower kw = ''emporada'' \<or> lower kw = ''season'')
              \<and> (\<forall>a d b. pre @ '' - '' = a @ '' - '' @ d # b \<longrightarrow> \<not> is_digit d)
            \<longrightarrow> dict_get [(''id'', PNone), (''type'', PStr ''episode''), (''title'', PStr ''Show''),
            (''series'', PStr ''Show''), (''season'', PInt 12), (''year'', PNone),
            (''title_br'', PStr ''Show - 12th Season''), (''imdb_id'', PInt 944947)] ''season'' = PInt (digits_value n)"
    by (elim conjE)
  note r = this [rule_format, of "''Show''" "''12''" "''th ''" "''Season''" "[]"]
  have 8: "dict_get [(''id'', PNone), (''type'', PStr ''episode''), (''title'', PStr ''Show''),
            (''series'', PStr ''Show''), (''season'', PInt 12), (''year'', PNone),
            (''title_br'', PStr ''Show - 12th Season''), (''imdb_id'', PInt 944947)] ''season'' = PInt (digits_value ''12'')"
    by (rule r [OF 7])
  have 9: "digits_value ''12'' = 12" by code_simp
  from 5 8 9 show ?thesis by (simp only: simp_thms)
qed

end
